theory Spec2Isabelle
  imports Main
begin

section \<open>Tensors, errors and the layers of the tensor framework\<close>

text \<open>
  The module \<^verbatim>\<open>core/discriminator.py\<close> builds discriminator networks out of layers of
  the tensor framework (\<^verbatim>\<open>torch.nn\<close>). The numeric contents of a tensor are floating
  point values owned by the framework; what decides whether a forward pass raises, and what
  the properties of the specification are about, is the shape of every tensor. A tensor is
  therefore represented by its shape, the list of its dimension sizes.

  A raised exception is a value: \<open>TypeError\<close> is the interpreter's error for a call with
  the wrong number of arguments, \<open>IndexError\<close> its error for indexing an empty list,
  \<open>RuntimeError\<close> stands for every exception raised inside the framework (shape
  mismatch, invalid parameter). The source defines no exception of its own.
\<close>

datatype error = TypeError | IndexError | RuntimeError

type_synonym tensor = "nat list"

fun and_then :: "error + 'a \<Rightarrow> ('a \<Rightarrow> error + 'b) \<Rightarrow> error + 'b" where
  "and_then (Inl e) f = Inl e"
| "and_then (Inr a) f = f a"

subsection \<open>Elementwise addition with broadcasting\<close>

text \<open>
  \<^verbatim>\<open>a + b\<close> on tensors aligns the two shapes at their last dimension; two sizes are
  compatible when they are equal or one of them is 1, and a missing leading dimension is
  taken from the other operand. \<open>broadcast_rev\<close> works on the reversed shapes.
\<close>

fun broadcast_rev :: "nat list \<Rightarrow> nat list \<Rightarrow> error + nat list" where
  "broadcast_rev [] ys = Inr ys"
| "broadcast_rev (a # xs) [] = Inr (a # xs)"
| "broadcast_rev (a # xs) (b # ys) =
     (if a = b \<or> b = 1 then and_then (broadcast_rev xs ys) (\<lambda>r. Inr (a # r))
      else if a = 1 then and_then (broadcast_rev xs ys) (\<lambda>r. Inr (b # r))
      else Inl RuntimeError)"

definition tensor_add :: "tensor \<Rightarrow> tensor \<Rightarrow> error + tensor" where
  "tensor_add x y = and_then (broadcast_rev (rev x) (rev y)) (\<lambda>r. Inr (rev r))"

subsection \<open>\<^verbatim>\<open>torch.flatten(t, 1, -1)\<close>\<close>

text \<open>
  Flattening from dimension 1 to the last one keeps the first dimension and multiplies the
  others together; a tensor without a dimension 1 is rejected.
\<close>

definition flatten_1_end :: "tensor \<Rightarrow> error + tensor" where
  "flatten_1_end t =
     (case t of
        [] \<Rightarrow> Inl RuntimeError
      | [a] \<Rightarrow> Inl RuntimeError
      | a # rest \<Rightarrow> Inr [a, prod_list rest])"

subsection \<open>\<^verbatim>\<open>nn.Conv1d\<close>\<close>

text \<open>
  A one-dimensional convolution (dilation 1, one group) is configured by its channel
  counts, kernel size, stride and padding. The channel counts are Python integers. The
  constructor allocates a weight of shape \<open>(out_channels, in_channels, kernel_size)\<close>,
  which the framework refuses for a negative size only: a layer without input channels or
  without output channels is constructed like any other.

  Applied to an input of shape \<open>(C, L)\<close> or \<open>(N, C, L)\<close>, the layer requires \<open>C\<close> to be
  its \<open>in_channels\<close> and the padded length \<open>L + 2 * padding\<close> to hold one kernel; the
  output has \<open>out_channels\<close> channels and length
  \<open>(L + 2 * padding - kernel_size) div stride + 1\<close>. An input without channels is not sent
  through a kernel: the framework returns an output of that length without channels.
\<close>

record Conv1d =
  in_channels :: int
  out_channels :: int
  kernel_size :: nat
  stride :: nat
  padding :: nat

definition Conv1d_init :: "int \<Rightarrow> int \<Rightarrow> nat \<Rightarrow> nat \<Rightarrow> nat \<Rightarrow> error + Conv1d" where
  "Conv1d_init cin cout k s p =
     (if cin < 0 \<or> cout < 0 then Inl RuntimeError
      else Inr \<lparr>in_channels = cin, out_channels = cout, kernel_size = k,
                stride = s, padding = p\<rparr>)"

definition conv_shape :: "Conv1d \<Rightarrow> nat list \<Rightarrow> nat \<Rightarrow> nat \<Rightarrow> error + tensor" where
  "conv_shape c batch ch l =
     (if int ch \<noteq> in_channels c then Inl RuntimeError
      else if kernel_size c = 0 \<or> stride c = 0 then Inl RuntimeError
      else if l + 2 * padding c < kernel_size c then Inl RuntimeError
      else Inr (batch @ [if ch = 0 then 0 else nat (out_channels c),
                         (l + 2 * padding c - kernel_size c) div stride c + 1]))"

definition Conv1d_forward :: "Conv1d \<Rightarrow> tensor \<Rightarrow> error + tensor" where
  "Conv1d_forward c x =
     (case x of
        [ch, l] \<Rightarrow> conv_shape c [] ch l
      | [n, ch, l] \<Rightarrow> conv_shape c [n] ch l
      | _ \<Rightarrow> Inl RuntimeError)"

text \<open>
  \<^verbatim>\<open>nn.utils.weight_norm\<close> reparameterises the weight of the layer it is given and
  returns that layer; the configuration is untouched.
\<close>

definition weight_norm :: "error + Conv1d \<Rightarrow> error + Conv1d" where
  "weight_norm m = m"

subsection \<open>\<^verbatim>\<open>nn.LeakyReLU\<close> and \<^verbatim>\<open>nn.Sequential\<close>\<close>

text \<open>
  The activation works elementwise (here in place) and keeps the shape. A
  \<^verbatim>\<open>Sequential\<close> feeds its input through its members in order.
\<close>

datatype module = LeakyReLU | Conv Conv1d | Sequential "module list"

fun module_forward :: "module \<Rightarrow> tensor \<Rightarrow> error + tensor"
  and Sequential_forward :: "module list \<Rightarrow> tensor \<Rightarrow> error + tensor" where
  "module_forward LeakyReLU x = Inr x"
| "module_forward (Conv c) x = Conv1d_forward c x"
| "module_forward (Sequential ms) x = Sequential_forward ms x"
| "Sequential_forward [] x = Inr x"
| "Sequential_forward (m # ms) x = and_then (module_forward m x) (Sequential_forward ms)"

subsection \<open>\<^verbatim>\<open>nn.AvgPool1d\<close>\<close>

text \<open>
  Average pooling is configured by its window (\<open>kernel_size\<close>), stride and padding; the
  constructor stores them and the forward pass checks them. Applied to an input of shape
  \<open>(C, L)\<close> or \<open>(N, C, L)\<close> with non-empty \<open>C\<close> and \<open>L\<close>, the layer requires a positive
  window, a padding of at most half the window, and a padded length that holds one window;
  the channels are kept and the length becomes
  \<open>(L + 2 * padding - kernel_size) div stride + 1\<close>.
\<close>

record AvgPool1d =
  pool_kernel_size :: int
  pool_stride :: nat
  pool_padding :: nat
  count_include_pad :: bool

definition pool_shape :: "AvgPool1d \<Rightarrow> nat list \<Rightarrow> nat \<Rightarrow> nat \<Rightarrow> error + tensor" where
  "pool_shape p batch ch l =
     (if pool_kernel_size p \<le> 0 \<or> pool_stride p = 0 then Inl RuntimeError
      else if pool_kernel_size p div 2 < int (pool_padding p) then Inl RuntimeError
      else if ch = 0 \<or> l = 0 then Inl RuntimeError
      else if int l + 2 * int (pool_padding p) < pool_kernel_size p then Inl RuntimeError
      else Inr (batch @ [ch,
             nat ((int l + 2 * int (pool_padding p) - pool_kernel_size p)
                    div int (pool_stride p) + 1)]))"

definition AvgPool1d_forward :: "AvgPool1d \<Rightarrow> tensor \<Rightarrow> error + tensor" where
  "AvgPool1d_forward p x =
     (case x of
        [ch, l] \<Rightarrow> pool_shape p [] ch l
      | [n, ch, l] \<Rightarrow> pool_shape p [n] ch l
      | _ \<Rightarrow> Inl RuntimeError)"

subsection \<open>\<^verbatim>\<open>nn.ModuleDict\<close>\<close>

text \<open>
  A \<^verbatim>\<open>ModuleDict\<close> is an ordered dictionary: assigning to a new key appends the entry,
  assigning to a key already present replaces the module at its position, and
  \<^verbatim>\<open>items()\<close> lists the entries in insertion order. The keys of the source are
  \<^verbatim>\<open>"layer_%d" % n\<close> and \<^verbatim>\<open>f"disc_{i}"\<close>; they are represented by the tag and
  the number they print.
\<close>

datatype key = layer int | disc int

fun ModuleDict_set :: "(key \<times> 'm) list \<Rightarrow> key \<Rightarrow> 'm \<Rightarrow> (key \<times> 'm) list" where
  "ModuleDict_set [] k m = [(k, m)]"
| "ModuleDict_set ((k', m') # d) k m =
     (if k' = k then (k, m) # d else (k', m') # ModuleDict_set d k m)"

section \<open>\<^verbatim>\<open>Dblock\<close>\<close>

text \<open>
  \<^verbatim>\<open>
  class Dblock(nn.Module):
      def __init__(self, input_dim, output_dim, hidden_dim = 256):
          self.input_spec = weight_norm(Conv1d(input_dim, output_dim, 3, stride=1, padding=1))
          self.input_cond = weight_norm(Conv1d(hidden_dim, output_dim, 3, stride=1, padding=1))
          self.output_spec = Sequential(LeakyReLU(0.2, True),
              weight_norm(Conv1d(output_dim, output_dim, 3, stride=1, padding=1)))
          self.output_cond = Sequential(LeakyReLU(0.2, True),
              weight_norm(Conv1d(output_dim, hidden_dim, 3, stride=1, padding=1)))

      def forward(self, spec, cond):
          x1 = self.input_spec(spec)
          y1 = self.input_cond(cond)
          x = x1 + y1
          out1 = self.output_spec(x)
          out2 = self.output_cond(y1)
          return out1 + x1, out2 + cond
  \<close>
\<close>

record Dblock =
  input_spec :: Conv1d
  input_cond :: Conv1d
  output_spec :: module
  output_cond :: module

definition Dblock_init :: "int \<Rightarrow> int \<Rightarrow> int \<Rightarrow> error + Dblock" where
  "Dblock_init input_dim output_dim hidden_dim =
     and_then (weight_norm (Conv1d_init input_dim output_dim 3 1 1)) (\<lambda>c1.
     and_then (weight_norm (Conv1d_init hidden_dim output_dim 3 1 1)) (\<lambda>c2.
     and_then (weight_norm (Conv1d_init output_dim output_dim 3 1 1)) (\<lambda>c3.
     and_then (weight_norm (Conv1d_init output_dim hidden_dim 3 1 1)) (\<lambda>c4.
       Inr \<lparr>input_spec = c1, input_cond = c2,
            output_spec = Sequential [LeakyReLU, Conv c3],
            output_cond = Sequential [LeakyReLU, Conv c4]\<rparr>))))"

definition Dblock_forward :: "Dblock \<Rightarrow> tensor \<Rightarrow> tensor \<Rightarrow> error + tensor \<times> tensor" where
  "Dblock_forward blk spec cond =
     and_then (Conv1d_forward (input_spec blk) spec) (\<lambda>x1.
     and_then (Conv1d_forward (input_cond blk) cond) (\<lambda>y1.
     and_then (tensor_add x1 y1) (\<lambda>x.
     and_then (module_forward (output_spec blk) x) (\<lambda>out1.
     and_then (module_forward (output_cond blk) y1) (\<lambda>out2.
     and_then (tensor_add out1 x1) (\<lambda>r1.
     and_then (tensor_add out2 cond) (\<lambda>r2.
       Inr (r1, r2))))))))"

section \<open>\<^verbatim>\<open>MSGDiscriminator\<close>\<close>

text \<open>
  \<^verbatim>\<open>
  class MSGDiscriminator(nn.Module):
      def __init__(self, nf = 80, n_layers = 4, hidden_dim = 256):
          discriminator = nn.ModuleDict()
          for n in range(1, n_layers + 1):
              discriminator["layer_%d" % n] = Dblock(nf, nf*2, hidden_dim)
              nf = nf * 2
          self.disc_spec = weight_norm(Conv1d(nf, 1, kernel_size=3, stride=1, padding=1))
          self.disc_cond = weight_norm(Conv1d(hidden_dim, 1, kernel_size=3, stride=1, padding=1))
          self.discriminator = discriminator

      def forward(self, x, y):
          features = list()
          for key, module in self.discriminator.items():
              x, y = module(x, y)
              features.append(x)
          out = self.disc_spec(x) + self.disc_cond(y)
          features.append(out)
          return features[:-1], torch.flatten(features[-1], 1, -1)
  \<close>
  \<open>MSG_layers\<close> is the loop of the constructor over the values of \<open>n\<close>, with the
  dictionary and \<open>nf\<close> as its state; \<open>MSG_loop\<close> is the loop of \<open>forward\<close>, with
  \<open>x\<close>, \<open>y\<close> and \<open>features\<close> as its state.
\<close>

record MSGDiscriminator =
  disc_spec :: Conv1d
  disc_cond :: Conv1d
  discriminator :: "(key \<times> Dblock) list"

fun MSG_layers ::
  "int list \<Rightarrow> (key \<times> Dblock) list \<Rightarrow> int \<Rightarrow> int \<Rightarrow> error + (key \<times> Dblock) list \<times> int" where
  "MSG_layers [] d nf hidden_dim = Inr (d, nf)"
| "MSG_layers (n # ns) d nf hidden_dim =
     and_then (Dblock_init nf (nf * 2) hidden_dim) (\<lambda>blk.
       MSG_layers ns (ModuleDict_set d (layer n) blk) (nf * 2) hidden_dim)"

definition MSGDiscriminator_init :: "int \<Rightarrow> int \<Rightarrow> int \<Rightarrow> error + MSGDiscriminator" where
  "MSGDiscriminator_init nf n_layers hidden_dim =
     and_then (MSG_layers [1..n_layers] [] nf hidden_dim) (\<lambda>(d, nf').
     and_then (weight_norm (Conv1d_init nf' 1 3 1 1)) (\<lambda>ds.
     and_then (weight_norm (Conv1d_init hidden_dim 1 3 1 1)) (\<lambda>dc.
       Inr \<lparr>disc_spec = ds, disc_cond = dc, discriminator = d\<rparr>)))"

fun MSG_loop ::
  "(key \<times> Dblock) list \<Rightarrow> tensor \<Rightarrow> tensor \<Rightarrow> tensor list
     \<Rightarrow> error + tensor \<times> tensor \<times> tensor list" where
  "MSG_loop [] x y features = Inr (x, y, features)"
| "MSG_loop ((k, blk) # items) x y features =
     and_then (Dblock_forward blk x y) (\<lambda>(x', y').
       MSG_loop items x' y' (features @ [x']))"

definition MSGDiscriminator_forward ::
  "MSGDiscriminator \<Rightarrow> tensor \<Rightarrow> tensor \<Rightarrow> error + tensor list \<times> tensor" where
  "MSGDiscriminator_forward D x y =
     and_then (MSG_loop (discriminator D) x y []) (\<lambda>(x', y', features).
     and_then (Conv1d_forward (disc_spec D) x') (\<lambda>a.
     and_then (Conv1d_forward (disc_cond D) y') (\<lambda>b.
     and_then (tensor_add a b) (\<lambda>out.
     and_then (flatten_1_end (last (features @ [out]))) (\<lambda>score.
       Inr (butlast (features @ [out]), score))))))"

text \<open>
  A call \<^verbatim>\<open>disc(...)\<close> of the module passes its positional arguments to
  \<open>forward(self, x, y)\<close>; with any other number of arguments than two the interpreter
  raises \<open>TypeError\<close> before the body runs.
\<close>

definition MSGDiscriminator_call ::
  "MSGDiscriminator \<Rightarrow> tensor list \<Rightarrow> error + tensor list \<times> tensor" where
  "MSGDiscriminator_call D args =
     (case args of
        [x, y] \<Rightarrow> MSGDiscriminator_forward D x y
      | _ \<Rightarrow> Inl TypeError)"

section \<open>\<^verbatim>\<open>MultiMSGDiscriminator\<close>\<close>

text \<open>
  \<^verbatim>\<open>
  class MultiMSGDiscriminator(nn.Module):
      def __init__(self, num_D = 3, ndf = 80, n_layers = 4, downsampling_factor = 2,
                   hidden_dim = 256):
          self.model = nn.ModuleDict()
          for i in range(num_D):
              self.model[f"disc_{i}"] = MSGDiscriminator(ndf, n_layers, hidden_dim)
          self.downsample = nn.AvgPool1d(downsampling_factor, stride=2, padding=1,
                                         count_include_pad=False)
          self.apply(weights_init)

      def forward(self, x, y):
          outputs = []
          features = []
          for key, disc in self.model.items():
              feats, out = disc(x, y)
              outputs.append(out)
              features.append(feats)
              x = self.downsample(x)
              y = self.downsample(y)
          return features, outputs
  \<close>
\<close>

record MultiMSGDiscriminator =
  model :: "(key \<times> MSGDiscriminator) list"
  downsample :: AvgPool1d

text \<open>
  Modelled from the spec: \<^verbatim>\<open>weights_init\<close> of \<^verbatim>\<open>utils/util.py\<close> is not among the
  sources; the specification calls it an external weight-initialization utility. Applied to
  every sub-module it sets weight values and leaves the configuration of every layer, the
  only thing represented here, as it is.
\<close>

definition apply_weights_init :: "'m \<Rightarrow> 'm" where
  "apply_weights_init self = self"

fun Multi_models ::
  "int list \<Rightarrow> (key \<times> MSGDiscriminator) list \<Rightarrow> int \<Rightarrow> int \<Rightarrow> int
     \<Rightarrow> error + (key \<times> MSGDiscriminator) list" where
  "Multi_models [] d ndf n_layers hidden_dim = Inr d"
| "Multi_models (i # is) d ndf n_layers hidden_dim =
     and_then (MSGDiscriminator_init ndf n_layers hidden_dim) (\<lambda>D.
       Multi_models is (ModuleDict_set d (disc i) D) ndf n_layers hidden_dim)"

definition MultiMSGDiscriminator_init ::
  "int \<Rightarrow> int \<Rightarrow> int \<Rightarrow> int \<Rightarrow> int \<Rightarrow> error + MultiMSGDiscriminator" where
  "MultiMSGDiscriminator_init num_D ndf n_layers downsampling_factor hidden_dim =
     and_then (Multi_models [0..num_D - 1] [] ndf n_layers hidden_dim) (\<lambda>d.
       Inr (apply_weights_init
         \<lparr>model = d,
          downsample = \<lparr>pool_kernel_size = downsampling_factor, pool_stride = 2,
                        pool_padding = 1, count_include_pad = False\<rparr>\<rparr>))"

fun MultiMSG_loop ::
  "(key \<times> MSGDiscriminator) list \<Rightarrow> AvgPool1d \<Rightarrow> tensor \<Rightarrow> tensor
     \<Rightarrow> tensor list list \<Rightarrow> tensor list \<Rightarrow> error + tensor list list \<times> tensor list" where
  "MultiMSG_loop [] pool x y features outputs = Inr (features, outputs)"
| "MultiMSG_loop ((k, D) # items) pool x y features outputs =
     and_then (MSGDiscriminator_call D [x, y]) (\<lambda>(feats, out).
     and_then (AvgPool1d_forward pool x) (\<lambda>x'.
     and_then (AvgPool1d_forward pool y) (\<lambda>y'.
       MultiMSG_loop items pool x' y' (features @ [feats]) (outputs @ [out]))))"

definition MultiMSGDiscriminator_forward ::
  "MultiMSGDiscriminator \<Rightarrow> tensor \<Rightarrow> tensor \<Rightarrow> error + tensor list list \<times> tensor list" where
  "MultiMSGDiscriminator_forward M x y = MultiMSG_loop (model M) (downsample M) x y [] []"

section \<open>\<^verbatim>\<open>MelGANDiscriminator\<close>\<close>

text \<open>
  \<^verbatim>\<open>
  class MelGANDiscriminator(nn.Module):
      def __init__(self, input_dim, ndf=16, n_layers=3, disc_out=512):
          discriminator = nn.ModuleDict()
          discriminator["layer_0"] = nn.Sequential(
              weight_norm(nn.Conv1d(input_dim, ndf, kernel_size=3, stride=1)),
              nn.LeakyReLU(0.2, True))
          nf = ndf
          for n in range(1, n_layers + 1):
              nf_prev = nf
              discriminator["layer_%d" % n] = nn.Sequential(
                  weight_norm(nn.Conv1d(nf_prev, nf, kernel_size=3, stride=2, padding=1)),
                  nn.LeakyReLU(0.2, True))
          nf = min(nf * 2, disc_out)
          discriminator["layer_%d" % (n_layers + 1)] = nn.Sequential(
              weight_norm(nn.Conv1d(nf, disc_out, kernel_size=3, stride=1, padding=2)),
              nn.LeakyReLU(0.2, True))
          discriminator["layer_%d" % (n_layers + 2)] = weight_norm(nn.Conv1d(
              nf, 1, kernel_size=3, stride=1, padding=1))
          self.discriminator = discriminator

      def forward(self, x):
          features = list()
          for key, module in self.discriminator.items():
              x = module(x)
              features.append(x)
          return features[:-1], features[-1]
  \<close>
\<close>

record MelGANDiscriminator =
  melgan_discriminator :: "(key \<times> module) list"

fun MelGAN_layers ::
  "int list \<Rightarrow> (key \<times> module) list \<Rightarrow> int \<Rightarrow> error + (key \<times> module) list" where
  "MelGAN_layers [] d nf = Inr d"
| "MelGAN_layers (n # ns) d nf =
     and_then (weight_norm (Conv1d_init nf nf 3 2 1)) (\<lambda>c.
       MelGAN_layers ns (ModuleDict_set d (layer n) (Sequential [Conv c, LeakyReLU])) nf)"

definition MelGANDiscriminator_init ::
  "int \<Rightarrow> int \<Rightarrow> int \<Rightarrow> int \<Rightarrow> error + MelGANDiscriminator" where
  "MelGANDiscriminator_init input_dim ndf n_layers disc_out =
     and_then (weight_norm (Conv1d_init input_dim ndf 3 1 0)) (\<lambda>c0.
     and_then (MelGAN_layers [1..n_layers]
                 (ModuleDict_set [] (layer 0) (Sequential [Conv c0, LeakyReLU])) ndf) (\<lambda>d.
     let nf = min (ndf * 2) disc_out in
     and_then (weight_norm (Conv1d_init nf disc_out 3 1 2)) (\<lambda>c1.
     and_then (weight_norm (Conv1d_init nf 1 3 1 1)) (\<lambda>c2.
       Inr \<lparr>melgan_discriminator =
              ModuleDict_set
                (ModuleDict_set d (layer (n_layers + 1)) (Sequential [Conv c1, LeakyReLU]))
                (layer (n_layers + 2)) (Conv c2)\<rparr>))))"

fun MelGAN_loop :: "(key \<times> module) list \<Rightarrow> tensor \<Rightarrow> tensor list \<Rightarrow> error + tensor list" where
  "MelGAN_loop [] x features = Inr features"
| "MelGAN_loop ((k, m) # items) x features =
     and_then (module_forward m x) (\<lambda>x'. MelGAN_loop items x' (features @ [x']))"

definition MelGANDiscriminator_forward ::
  "MelGANDiscriminator \<Rightarrow> tensor \<Rightarrow> error + tensor list \<times> tensor" where
  "MelGANDiscriminator_forward D x =
     and_then (MelGAN_loop (melgan_discriminator D) x []) (\<lambda>features.
       if features = [] then Inl IndexError
       else Inr (butlast features, last features))"

section \<open>\<^verbatim>\<open>MultiScaleDiscriminator\<close>\<close>

text \<open>
  \<^verbatim>\<open>
  class MultiScaleDiscriminator(nn.Module):
      def __init__(self, num_D = 3, ndf = 80, n_layers = 4, downsampling_factor = 2,
                   hidden_dim = 256):
          self.model = nn.ModuleDict()
          for i in range(num_D):
              self.model[f"disc_{i}"] = MSGDiscriminator(ndf, n_layers, hidden_dim)
          self.downsample = nn.AvgPool1d(downsampling_factor, stride=2, padding=1,
                                         count_include_pad=False)
          self.apply(weights_init)

      def forward(self, x):
          outputs = []
          features = []
          for key, disc in self.model.items():
              feats, out = disc(x)
              outputs.append(out)
              features.append(feats)
              x = self.downsample(x)
          return features, outputs
  \<close>
  The constructor is the one of \<open>MultiMSGDiscriminator\<close>, statement by statement; the
  sub-discriminators are again \<open>MSGDiscriminator\<close>s, and \<open>forward\<close> calls each with the
  single argument \<open>x\<close>.
\<close>

record MultiScaleDiscriminator =
  ms_model :: "(key \<times> MSGDiscriminator) list"
  ms_downsample :: AvgPool1d

definition MultiScaleDiscriminator_init ::
  "int \<Rightarrow> int \<Rightarrow> int \<Rightarrow> int \<Rightarrow> int \<Rightarrow> error + MultiScaleDiscriminator" where
  "MultiScaleDiscriminator_init num_D ndf n_layers downsampling_factor hidden_dim =
     and_then (Multi_models [0..num_D - 1] [] ndf n_layers hidden_dim) (\<lambda>d.
       Inr (apply_weights_init
         \<lparr>ms_model = d,
          ms_downsample = \<lparr>pool_kernel_size = downsampling_factor, pool_stride = 2,
                           pool_padding = 1, count_include_pad = False\<rparr>\<rparr>))"

fun MultiScale_loop ::
  "(key \<times> MSGDiscriminator) list \<Rightarrow> AvgPool1d \<Rightarrow> tensor
     \<Rightarrow> tensor list list \<Rightarrow> tensor list \<Rightarrow> error + tensor list list \<times> tensor list" where
  "MultiScale_loop [] pool x features outputs = Inr (features, outputs)"
| "MultiScale_loop ((k, D) # items) pool x features outputs =
     and_then (MSGDiscriminator_call D [x]) (\<lambda>(feats, out).
     and_then (AvgPool1d_forward pool x) (\<lambda>x'.
       MultiScale_loop items pool x' (features @ [feats]) (outputs @ [out])))"

definition MultiScaleDiscriminator_forward ::
  "MultiScaleDiscriminator \<Rightarrow> tensor \<Rightarrow> error + tensor list list \<times> tensor list" where
  "MultiScaleDiscriminator_forward M x =
     MultiScale_loop (ms_model M) (ms_downsample M) x [] []"

section \<open>Constructing a module and calling it\<close>

text \<open>
  The script at the end of the source constructs a module and calls it on an input:
  \<^verbatim>\<open>model = Dblock(80, 160); out = model(x, cond)\<close>. The same two steps for every
  class; an error of the constructor is the error of the whole.
\<close>

definition Dblock_run :: "int \<Rightarrow> int \<Rightarrow> int \<Rightarrow> tensor \<Rightarrow> tensor \<Rightarrow> error + tensor \<times> tensor" where
  "Dblock_run input_dim output_dim hidden_dim spec cond =
     and_then (Dblock_init input_dim output_dim hidden_dim) (\<lambda>blk. Dblock_forward blk spec cond)"

definition MSGDiscriminator_run ::
  "int \<Rightarrow> int \<Rightarrow> int \<Rightarrow> tensor \<Rightarrow> tensor \<Rightarrow> error + tensor list \<times> tensor" where
  "MSGDiscriminator_run nf n_layers hidden_dim x y =
     and_then (MSGDiscriminator_init nf n_layers hidden_dim) (\<lambda>D.
       MSGDiscriminator_forward D x y)"

definition MultiMSGDiscriminator_run ::
  "int \<Rightarrow> int \<Rightarrow> int \<Rightarrow> int \<Rightarrow> int \<Rightarrow> tensor \<Rightarrow> tensor
     \<Rightarrow> error + tensor list list \<times> tensor list" where
  "MultiMSGDiscriminator_run num_D ndf n_layers downsampling_factor hidden_dim x y =
     and_then (MultiMSGDiscriminator_init num_D ndf n_layers downsampling_factor hidden_dim)
       (\<lambda>M. MultiMSGDiscriminator_forward M x y)"

definition MelGANDiscriminator_run ::
  "int \<Rightarrow> int \<Rightarrow> int \<Rightarrow> int \<Rightarrow> tensor \<Rightarrow> error + tensor list \<times> tensor" where
  "MelGANDiscriminator_run input_dim ndf n_layers disc_out x =
     and_then (MelGANDiscriminator_init input_dim ndf n_layers disc_out) (\<lambda>D.
       MelGANDiscriminator_forward D x)"

definition MultiScaleDiscriminator_run ::
  "int \<Rightarrow> int \<Rightarrow> int \<Rightarrow> int \<Rightarrow> int \<Rightarrow> tensor \<Rightarrow> error + tensor list list \<times> tensor list" where
  "MultiScaleDiscriminator_run num_D ndf n_layers downsampling_factor hidden_dim x =
     and_then (MultiScaleDiscriminator_init num_D ndf n_layers downsampling_factor hidden_dim)
       (\<lambda>M. MultiScaleDiscriminator_forward M x)"

section \<open>The vocabulary of the specification\<close>

text \<open>
  The definitions of this section are not translations of source code: they say in HOL
  what the properties of the specification talk about, so that the code can be compared
  with them.

  The channel count of a tensor of shape \<open>(C, L)\<close> or \<open>(N, C, L)\<close> is \<open>C\<close>. The
  convolutions of a module are listed in the order in which it applies them.
\<close>

definition channels :: "tensor \<Rightarrow> nat option" where
  "channels t = (case t of [c, l] \<Rightarrow> Some c | [n, c, l] \<Rightarrow> Some c | _ \<Rightarrow> None)"

fun convs_of :: "module \<Rightarrow> Conv1d list" where
  "convs_of LeakyReLU = []"
| "convs_of (Conv c) = [c]"
| "convs_of (Sequential ms) = concat (map convs_of ms)"

definition Dblock_convs :: "Dblock \<Rightarrow> Conv1d list" where
  "Dblock_convs blk =
     [input_spec blk, input_cond blk] @ convs_of (output_spec blk) @ convs_of (output_cond blk)"

text \<open>
  The block that \<open>Dblock(input_dim, output_dim, hidden_dim)\<close> describes, and the
  doubling chain of blocks under the keys \<open>layer n\<close>: each block doubles the channel
  count it receives.
\<close>

definition Dblock_of :: "int \<Rightarrow> int \<Rightarrow> int \<Rightarrow> Dblock" where
  "Dblock_of input_dim output_dim hidden_dim =
     \<lparr>input_spec = \<lparr>in_channels = input_dim, out_channels = output_dim,
                     kernel_size = 3, stride = 1, padding = 1\<rparr>,
      input_cond = \<lparr>in_channels = hidden_dim, out_channels = output_dim,
                     kernel_size = 3, stride = 1, padding = 1\<rparr>,
      output_spec = Sequential [LeakyReLU,
          Conv \<lparr>in_channels = output_dim, out_channels = output_dim,
                kernel_size = 3, stride = 1, padding = 1\<rparr>],
      output_cond = Sequential [LeakyReLU,
          Conv \<lparr>in_channels = output_dim, out_channels = hidden_dim,
                kernel_size = 3, stride = 1, padding = 1\<rparr>]\<rparr>"

fun doubling_chain :: "int list \<Rightarrow> int \<Rightarrow> int \<Rightarrow> (key \<times> Dblock) list" where
  "doubling_chain [] nf hidden_dim = []"
| "doubling_chain (n # ns) nf hidden_dim =
     (layer n, Dblock_of nf (nf * 2) hidden_dim) # doubling_chain ns (nf * 2) hidden_dim"



section \<open>Auxiliary facts\<close>

subsection \<open>Results, dictionaries and constructors\<close>

lemma and_then_Inr_iff: "and_then m f = Inr r \<longleftrightarrow> (\<exists>a. m = Inr a \<and> f a = Inr r)"
  by (cases m) auto


lemma ModuleDict_set_fresh: "k \<notin> fst ` set d \<Longrightarrow> ModuleDict_set d k m = d @ [(k, m)]"
  by (induction d) auto

lemma Conv1d_init_Inr_iff:
  "Conv1d_init cin cout k s p = Inr c \<longleftrightarrow>
     0 \<le> cin \<and> 0 \<le> cout \<and>
     c = \<lparr>in_channels = cin, out_channels = cout, kernel_size = k, stride = s, padding = p\<rparr>"
  by (auto simp: Conv1d_init_def)

lemma Dblock_init_Inr_iff:
  "Dblock_init i out h = Inr blk \<longleftrightarrow> 0 \<le> i \<and> 0 \<le> out \<and> 0 \<le> h \<and> blk = Dblock_of i out h"
  by (auto simp: Dblock_init_def Dblock_of_def weight_norm_def and_then_Inr_iff Conv1d_init_Inr_iff)

lemma broadcast_rev_same: "broadcast_rev xs xs = Inr xs"
  by (induction xs) auto

lemma tensor_add_same: "tensor_add x x = Inr x"
  by (simp add: tensor_add_def broadcast_rev_same)

lemma Conv1d_forward_3:
  "0 < cin \<Longrightarrow> 0 < k \<Longrightarrow> 0 < s \<Longrightarrow> k \<le> l + 2 * p \<Longrightarrow>
   Conv1d_forward \<lparr>in_channels = cin, out_channels = cout, kernel_size = k, stride = s, padding = p\<rparr> [b, nat cin, l]
     = Inr [b, nat cout, (l + 2 * p - k) div s + 1]"
  by (simp add: Conv1d_forward_def conv_shape_def)

lemma Dblock_of_forward:
  assumes "0 < i" "0 < out" "0 < h" "1 \<le> L"
  shows "Dblock_forward (Dblock_of i out h) [b, nat i, L] [b, nat h, L] = Inr ([b, nat out, L], [b, nat h, L])"
  using assms by (simp add: Dblock_forward_def Dblock_of_def Conv1d_forward_3 tensor_add_same)


subsection \<open>The constructor of \<^verbatim>\<open>MSGDiscriminator\<close> builds the doubling chain\<close>

lemma doubling_chain_keys: "map fst (doubling_chain ns nf h) = map layer ns"
  by (induction ns arbitrary: nf) auto

lemma doubling_chain_length: "length (doubling_chain ns nf h) = length ns"
  by (induction ns arbitrary: nf) auto

lemma doubling_chain_nth:
  "j < length ns \<Longrightarrow>
   doubling_chain ns nf h ! j = (layer (ns ! j), Dblock_of (nf * 2 ^ j) (nf * 2 ^ Suc j) h)"
proof (induction ns arbitrary: nf j)
  case Nil
  then show ?case by simp
next
  case (Cons n ns)
  show ?case
  proof (cases j)
    case 0
    then show ?thesis by simp
  next
    case (Suc i)
    with Cons.prems have "i < length ns" by simp
    from Cons.IH [OF this, of "nf * 2"] Suc show ?thesis
      by (simp add: mult.assoc)
  qed
qed

lemma MSG_layers_Inr_iff:
  assumes "distinct ns" and "\<forall>n\<in>set ns. layer n \<notin> fst ` set d"
  shows "MSG_layers ns d nf h = Inr r \<longleftrightarrow>
           (ns = [] \<or> 0 \<le> nf \<and> 0 \<le> h) \<and> r = (d @ doubling_chain ns nf h, nf * 2 ^ length ns)"
  using assms
proof (induction ns arbitrary: d nf)
  case Nil
  then show ?case by auto
next
  case (Cons n ns)
  have fresh: "layer n \<notin> fst ` set d" using Cons.prems by simp
  have d: "distinct ns" using Cons.prems by simp
  have f: "\<forall>m\<in>set ns. layer m \<notin> fst ` set (d @ [(layer n, blk)])" for blk
    using Cons.prems by auto
  show ?case
    by (auto simp: and_then_Inr_iff Dblock_init_Inr_iff ModuleDict_set_fresh [OF fresh]
          Cons.IH [OF d f] mult.assoc)
qed

lemma MSGDiscriminator_init_Inr_iff:
  "MSGDiscriminator_init nf n h = Inr D \<longleftrightarrow>
     0 \<le> nf \<and> 0 \<le> h \<and>
     D = \<lparr>disc_spec = \<lparr>in_channels = nf * 2 ^ nat n, out_channels = 1, kernel_size = 3, stride = 1, padding = 1\<rparr>,
          disc_cond = \<lparr>in_channels = h, out_channels = 1, kernel_size = 3, stride = 1, padding = 1\<rparr>,
          discriminator = doubling_chain [1..n] nf h\<rparr>"
proof -
  have len: "length [1..n] = nat n" by simp
  have *: "MSG_layers [1..n] [] nf h = Inr r \<longleftrightarrow>
           ([1..n] = [] \<or> 0 \<le> nf \<and> 0 \<le> h) \<and> r = (doubling_chain [1..n] nf h, nf * 2 ^ nat n)" for r
    using MSG_layers_Inr_iff [of "[1..n]" "[]" nf h r] by simp
  show ?thesis
    unfolding MSGDiscriminator_init_def
    by (auto simp: and_then_Inr_iff * weight_norm_def Conv1d_init_Inr_iff)
qed


subsection \<open>The loop of \<^verbatim>\<open>MSGDiscriminator.forward\<close>\<close>

text \<open>
  The loop only appends to \<open>features\<close>, once per block; on inputs with the configured
  channel counts and a non-empty sequence it runs through the whole chain.
\<close>

lemma MSG_loop_acc:
  "MSG_loop items x y fs = Inr (x', y', fs') \<longleftrightarrow>
     (\<exists>new. MSG_loop items x y [] = Inr (x', y', new) \<and> fs' = fs @ new)"
proof (induction items arbitrary: x y fs fs')
  case Nil
  then show ?case by auto
next
  case (Cons it items)
  obtain k blk where it: "it = (k, blk)" by (cases it)
  have A: "MSG_loop items a c (fs @ [a]) = Inr (x', y', fs') \<longleftrightarrow>
             (\<exists>new. MSG_loop items a c [] = Inr (x', y', new) \<and> fs' = (fs @ [a]) @ new)" for a c
    by (rule Cons.IH)
  have B: "MSG_loop items a c [a] = Inr (x', y', new) \<longleftrightarrow>
             (\<exists>new'. MSG_loop items a c [] = Inr (x', y', new') \<and> new = [a] @ new')" for a c new
    by (rule Cons.IH)
  show ?case
    unfolding it by (auto simp: and_then_Inr_iff A B)
qed

lemma MSG_loop_length:
  "MSG_loop items x y fs = Inr (x', y', fs') \<Longrightarrow> length fs' = length fs + length items"
proof (induction items arbitrary: x y fs)
  case Nil
  then show ?case by simp
next
  case (Cons it items)
  obtain k blk where it: "it = (k, blk)" by (cases it)
  from Cons.prems show ?case
    unfolding it by (auto simp: and_then_Inr_iff dest!: Cons.IH)
qed

lemma map_upt_shift:
  "map f [Suc 0..<Suc (Suc n)] = f (Suc 0) # map (\<lambda>k. f (Suc k)) [Suc 0..<Suc n]"
proof -
  have "[Suc 0..<Suc (Suc n)] = Suc 0 # map Suc [Suc 0..<Suc n]"
    by (simp add: map_Suc_upt upt_conv_Cons del: upt_Suc)
  then show ?thesis by (simp add: comp_def del: upt_Suc)
qed

lemma MSG_loop_doubling_chain:
  assumes "0 < nf" "0 < h" "1 \<le> L"
  shows "MSG_loop (doubling_chain ns nf h) [b, nat nf, L] [b, nat h, L] fs =
           Inr ([b, nat nf * 2 ^ length ns, L], [b, nat h, L],
                fs @ map (\<lambda>k. [b, nat nf * 2 ^ k, L]) [1..<Suc (length ns)])"
  using assms(1)
proof (induction ns arbitrary: nf fs)
  case Nil
  then show ?case by simp
next
  case (Cons n ns)
  have pos: "0 < nf * 2" using Cons.prems by simp
  have n2: "nat (nf * 2) = nat nf * 2" using Cons.prems by (simp add: nat_mult_distrib)
  have step: "Dblock_forward (Dblock_of nf (nf * 2) h) [b, nat nf, L] [b, nat h, L]
                = Inr ([b, nat nf * 2, L], [b, nat h, L])"
    using Dblock_of_forward [OF Cons.prems pos assms(2,3), of b] by (simp add: n2)
  show ?case
    by (simp add: step Cons.IH [OF pos, unfolded n2] map_upt_shift mult.assoc del: upt_Suc)
qed


lemma Conv1d_forward_same_length:
  assumes "kernel_size c = 3" "stride c = 1" "padding c = 1" "int ch = in_channels c"
    and "0 < ch" "1 \<le> L"
  shows "Conv1d_forward c [n, ch, L] = Inr [n, nat (out_channels c), L]"
  using assms by (simp add: Conv1d_forward_def conv_shape_def)

subsection \<open>Channel counts on arbitrary inputs\<close>

text \<open>
  Whatever the input is, a convolution that returns was given its \<open>in_channels\<close> and,
  unless these are none, produces its \<open>out_channels\<close>; a sum of two tensors with \<open>c\<close>
  channels has \<open>c\<close> channels.
\<close>

lemma Conv1d_forward_channels:
  "Conv1d_forward c x = Inr r \<Longrightarrow>
     channels x = Some (nat (in_channels c)) \<and>
     channels r = Some (if in_channels c = 0 then 0 else nat (out_channels c))"
  by (auto simp: Conv1d_forward_def conv_shape_def channels_def
        split: list.splits if_splits)

lemma channels_cases:
  "channels t = Some c \<longleftrightarrow> (\<exists>l. t = [c, l]) \<or> (\<exists>n l. t = [n, c, l])"
  by (auto simp: channels_def split: list.splits)

lemma tensor_add_channels:
  assumes "channels a = Some c" "channels b = Some c" "tensor_add a b = Inr r"
  shows "channels r = Some c"
  using assms unfolding channels_cases
  by (auto simp: tensor_add_def and_then_Inr_iff split: if_splits)

lemma Dblock_of_forward_channels:
  assumes "Dblock_forward (Dblock_of i out h) spec cond = Inr (r1, r2)"
    and pos: "0 < i" "0 < out" "0 < h"
  shows "channels r1 = Some (nat out) \<and> channels r2 = Some (nat h)"
proof -
  from assms(1) obtain x1 y1 x out1 out2 where
    x1: "Conv1d_forward (input_spec (Dblock_of i out h)) spec = Inr x1" and
    y1: "Conv1d_forward (input_cond (Dblock_of i out h)) cond = Inr y1" and
    x: "tensor_add x1 y1 = Inr x" and
    out1: "module_forward (output_spec (Dblock_of i out h)) x = Inr out1" and
    out2: "module_forward (output_cond (Dblock_of i out h)) y1 = Inr out2" and
    r1: "tensor_add out1 x1 = Inr r1" and
    r2: "tensor_add out2 cond = Inr r2"
    unfolding Dblock_forward_def by (auto simp: and_then_Inr_iff)
  from x1 pos have cx1: "channels x1 = Some (nat out)"
    by (auto dest!: Conv1d_forward_channels simp: Dblock_of_def)
  from y1 pos have cc: "channels cond = Some (nat h)"
    by (auto dest!: Conv1d_forward_channels simp: Dblock_of_def)
  from out1 pos have co1: "channels out1 = Some (nat out)"
    by (auto dest!: Conv1d_forward_channels simp: Dblock_of_def and_then_Inr_iff)
  from out2 pos have co2: "channels out2 = Some (nat h)"
    by (auto dest!: Conv1d_forward_channels simp: Dblock_of_def and_then_Inr_iff)
  from tensor_add_channels [OF co1 cx1 r1] tensor_add_channels [OF co2 cc r2]
  show ?thesis by simp
qed

lemma MSG_loop_doubling_chain_channels:
  assumes "MSG_loop (doubling_chain ns nf h) x y [] = Inr (x', y', new)"
    and "0 < nf" and h: "0 < h"
  shows "(ns \<noteq> [] \<longrightarrow> channels x' = Some (nat (nf * 2 ^ length ns)) \<and> channels y' = Some (nat h)
            \<and> last new = x') \<and>
         (\<forall>j<length ns. channels (new ! j) = Some (nat (nf * 2 ^ Suc j)))"
  using assms(1,2)
proof (induction ns arbitrary: nf x y new)
  case Nil
  then show ?case by simp
next
  case (Cons n ns)
  from Cons.prems obtain x1 y1 new' where
    step: "Dblock_forward (Dblock_of nf (nf * 2) h) x y = Inr (x1, y1)" and
    rest: "MSG_loop (doubling_chain ns (nf * 2) h) x1 y1 [] = Inr (x', y', new')" and
    new: "new = x1 # new'"
    by (auto simp: and_then_Inr_iff MSG_loop_acc [where fs = "[a]" for a])
  have pos: "0 < nf * 2" using Cons.prems(2) by simp
  note ch = Dblock_of_forward_channels [OF step Cons.prems(2) pos h]
  note IH = Cons.IH [OF rest pos]
  have len: "length new' = length ns"
    using MSG_loop_length [OF rest] by (simp add: doubling_chain_length)
  have A: "channels x' = Some (nat (nf * 2 ^ length (n # ns))) \<and> channels y' = Some (nat h)
            \<and> last new = x'"
  proof (cases ns)
    case Nil
    with rest new ch show ?thesis by simp
  next
    case (Cons m ms)
    with IH new len show ?thesis by (auto simp: mult.assoc)
  qed
  have B: "channels (new ! j) = Some (nat (nf * 2 ^ Suc j))" if "j < length (n # ns)" for j
  proof (cases j)
    case 0
    with new ch show ?thesis by simp
  next
    case (Suc i)
    with that have "i < length ns" by simp
    with IH Suc new show ?thesis by (simp add: mult.assoc)
  qed
  from A B show ?case by blast
qed


lemma nat_doubling: "0 < nf \<Longrightarrow> nat (nf * 2 ^ k) = nat nf * 2 ^ k"
  by (simp add: nat_mult_distrib nat_power_eq)

lemma upto_nth_from_1: "k < nat n \<Longrightarrow> [1..n] ! k = int k + 1"
  by (subst nth_upto) auto

lemma MSGDiscriminator_forward_doubling_chain:
  assumes "MSGDiscriminator_init nf n_layers hidden_dim = Inr D" and "1 \<le> L"
    and pos: "0 < nf" "0 < hidden_dim"
  shows "MSGDiscriminator_forward D [batch, nat nf, L] [batch, nat hidden_dim, L]
           = Inr (map (\<lambda>k. [batch, nat (nf * 2 ^ k), L]) [1..<Suc (nat n_layers)], [batch, L])"
proof -
  from assms(1) have D: "D = \<lparr>disc_spec = \<lparr>in_channels = nf * 2 ^ nat n_layers, out_channels = 1,
                              kernel_size = 3, stride = 1, padding = 1\<rparr>,
                 disc_cond = \<lparr>in_channels = hidden_dim, out_channels = 1,
                              kernel_size = 3, stride = 1, padding = 1\<rparr>,
                 discriminator = doubling_chain [1..n_layers] nf hidden_dim\<rparr>"
    by (simp add: MSGDiscriminator_init_Inr_iff)
  have pos': "0 < nf * 2 ^ nat n_layers" using pos by simp
  have loop: "MSG_loop (discriminator D) [batch, nat nf, L] [batch, nat hidden_dim, L] [] =
      Inr ([batch, nat (nf * 2 ^ nat n_layers), L], [batch, nat hidden_dim, L],
           map (\<lambda>k. [batch, nat (nf * 2 ^ k), L]) [1..<Suc (nat n_layers)])"
    using MSG_loop_doubling_chain [OF pos assms(2), of "[1..n_layers]" batch "[]"]
    by (simp add: D nat_doubling [OF pos(1)] del: upt_Suc)
  have spec: "Conv1d_forward (disc_spec D) [batch, nat (nf * 2 ^ nat n_layers), L] = Inr [batch, 1, L]"
    using Conv1d_forward_3 [where cin = "nf * 2 ^ nat n_layers" and cout = 1 and k = 3
        and s = 1 and p = 1 and l = L and b = batch] pos' assms(2)
    by (simp add: D)
  have cond: "Conv1d_forward (disc_cond D) [batch, nat hidden_dim, L] = Inr [batch, 1, L]"
    using Conv1d_forward_3 [where cin = hidden_dim and cout = 1 and k = 3
        and s = 1 and p = 1 and l = L and b = batch] pos(2) assms(2)
    by (simp add: D)
  have flat: "flatten_1_end [batch, 1, L] = Inr [batch, L]"
    by (simp add: flatten_1_end_def)
  show ?thesis
    unfolding MSGDiscriminator_forward_def
    by (simp add: loop spec cond tensor_add_same flatten_1_end_def del: upt_Suc)
qed

lemma doubling_chain_take: "take k (doubling_chain ns nf h) = doubling_chain (take k ns) nf h"
proof (induction ns arbitrary: k nf)
  case Nil
  then show ?case by simp
next
  case (Cons n ns)
  then show ?case by (cases k) simp_all
qed

lemma MSGDiscriminator_forward_features:
  assumes "MSGDiscriminator_forward D x y = Inr (feats, score)"
  shows "\<exists>x' y'. MSG_loop (discriminator D) x y [] = Inr (x', y', feats)"
  using assms unfolding MSGDiscriminator_forward_def
  by (auto simp: and_then_Inr_iff)

lemma Dblock_of_convs:
  "map in_channels (Dblock_convs (Dblock_of i out h)) = [i, h, out, out] \<and>
   map out_channels (Dblock_convs (Dblock_of i out h)) = [out, out, out, h]"
  by (simp add: Dblock_convs_def Dblock_of_def)

subsection \<open>The constructors of the multi-scale discriminators\<close>

lemma Multi_models_Inr_iff:
  assumes "distinct is" and "\<forall>i\<in>set is. disc i \<notin> fst ` set d"
  shows "Multi_models is d ndf n h = Inr r \<longleftrightarrow>
           (case MSGDiscriminator_init ndf n h of
              Inl e \<Rightarrow> is = [] \<and> r = d
            | Inr D \<Rightarrow> r = d @ map (\<lambda>i. (disc i, D)) is)"
  using assms
proof (induction "is" arbitrary: d)
  case Nil
  then show ?case by (auto split: sum.splits)
next
  case (Cons i js)
  have fresh: "disc i \<notin> fst ` set d" using Cons.prems by simp
  have dist: "distinct js" using Cons.prems by simp
  have f: "\<forall>j\<in>set js. disc j \<notin> fst ` set (d @ [(disc i, D)])" for D
    using Cons.prems by auto
  show ?case
  proof (cases "MSGDiscriminator_init ndf n h")
    case (Inl e)
    then show ?thesis by simp
  next
    case (Inr D)
    then show ?thesis
      using Cons.IH [OF dist f, of D]
      by (simp add: ModuleDict_set_fresh [OF fresh])
  qed
qed

lemma Multi_models_range:
  "Multi_models [0..num_D - 1] [] ndf n h = Inr r \<longleftrightarrow>
     (num_D \<le> 0 \<and> r = []) \<or>
     (1 \<le> num_D \<and> (\<exists>D. MSGDiscriminator_init ndf n h = Inr D \<and>
                           r = map (\<lambda>i. (disc i, D)) [0..num_D - 1]))"
proof -
  have e: "[0..num_D - 1] = [] \<longleftrightarrow> num_D \<le> 0" by auto
  show ?thesis
    using Multi_models_Inr_iff [of "[0..num_D - 1]" "[]" ndf n h r] e
    by (auto split: sum.splits)
qed

lemma MultiMSGDiscriminator_init_Inr_iff:
  "MultiMSGDiscriminator_init num_D ndf n d h = Inr M \<longleftrightarrow>
     (\<exists>r. Multi_models [0..num_D - 1] [] ndf n h = Inr r \<and>
          M = \<lparr>model = r,
               downsample = \<lparr>pool_kernel_size = d, pool_stride = 2, pool_padding = 1,
                             count_include_pad = False\<rparr>\<rparr>)"
  by (auto simp: MultiMSGDiscriminator_init_def and_then_Inr_iff apply_weights_init_def)

lemma MultiScaleDiscriminator_init_Inr_iff:
  "MultiScaleDiscriminator_init num_D ndf n d h = Inr M \<longleftrightarrow>
     (\<exists>r. Multi_models [0..num_D - 1] [] ndf n h = Inr r \<and>
          M = \<lparr>ms_model = r,
               ms_downsample = \<lparr>pool_kernel_size = d, pool_stride = 2, pool_padding = 1,
                                count_include_pad = False\<rparr>\<rparr>)"
  by (auto simp: MultiScaleDiscriminator_init_def and_then_Inr_iff apply_weights_init_def)

lemma MultiScale_loop_TypeError:
  "items \<noteq> [] \<Longrightarrow> MultiScale_loop items pool x fs os = Inl TypeError"
  by (cases items) (auto simp: MSGDiscriminator_call_def)

lemma MultiScaleDiscriminator_forward_TypeError:
  assumes "MultiScaleDiscriminator_init num_D ndf n d h = Inr M" and "1 \<le> num_D"
  shows "MultiScaleDiscriminator_forward M x = Inl TypeError"
proof -
  from assms have "ms_model M \<noteq> []"
    by (auto simp: MultiScaleDiscriminator_init_Inr_iff Multi_models_range)
  then show ?thesis
    by (simp add: MultiScaleDiscriminator_forward_def MultiScale_loop_TypeError)
qed

lemma Multi_models_ok:
  assumes "MSGDiscriminator_init ndf n h = Inr D"
  shows "\<exists>r. Multi_models [0..num_D - 1] [] ndf n h = Inr r"
proof -
  have "Multi_models [0..num_D - 1] [] ndf n h
          = Inr (if num_D \<le> 0 then [] else map (\<lambda>i. (disc i, D)) [0..num_D - 1])"
    unfolding Multi_models_range using assms by auto
  then show ?thesis ..
qed

lemma MultiScaleDiscriminator_init_ok:
  assumes "MSGDiscriminator_init ndf n h = Inr D"
  shows "\<exists>M. MultiScaleDiscriminator_init num_D ndf n d h = Inr M"
  using Multi_models_ok [OF assms, of num_D]
  unfolding MultiScaleDiscriminator_init_Inr_iff by blast

lemma MultiMSGDiscriminator_init_ok:
  assumes "MSGDiscriminator_init ndf n h = Inr D"
  shows "\<exists>M. MultiMSGDiscriminator_init num_D ndf n d h = Inr M"
  using Multi_models_ok [OF assms, of num_D]
  unfolding MultiMSGDiscriminator_init_Inr_iff by blast

lemma MSGDiscriminator_init_default: "\<exists>D. MSGDiscriminator_init 80 4 256 = Inr D"
  by (simp add: MSGDiscriminator_init_Inr_iff)

subsection \<open>Pooling\<close>






subsection \<open>\<^verbatim>\<open>MelGANDiscriminator\<close>: the constructed layers and the channel mismatch\<close>

lemma MelGAN_layers_Inr_iff:
  assumes "distinct ns" and "\<forall>n\<in>set ns. layer n \<notin> fst ` set d"
  shows "MelGAN_layers ns d nf = Inr r \<longleftrightarrow>
           (ns = [] \<or> 0 \<le> nf) \<and>
           r = d @ map (\<lambda>n. (layer n, Sequential
                 [Conv \<lparr>in_channels = nf, out_channels = nf, kernel_size = 3,
                        stride = 2, padding = 1\<rparr>, LeakyReLU])) ns"
  using assms
proof (induction ns arbitrary: d)
  case Nil
  then show ?case by auto
next
  case (Cons n ns)
  have fresh: "layer n \<notin> fst ` set d" using Cons.prems by simp
  have dist: "distinct ns" using Cons.prems by simp
  have f: "\<forall>m\<in>set ns. layer m \<notin> fst ` set (d @ [(layer n, blk)])" for blk
    using Cons.prems by auto
  show ?case
    by (auto simp: and_then_Inr_iff weight_norm_def Conv1d_init_Inr_iff
          ModuleDict_set_fresh [OF fresh] Cons.IH [OF dist f])
qed

lemma MelGANDiscriminator_init_Inr_iff:
  assumes "0 \<le> n_layers"
  shows "MelGANDiscriminator_init input_dim ndf n_layers disc_out = Inr D \<longleftrightarrow>
     0 \<le> input_dim \<and> 0 \<le> ndf \<and> 0 \<le> disc_out \<and>
     D = \<lparr>melgan_discriminator =
            (layer 0, Sequential [Conv \<lparr>in_channels = input_dim, out_channels = ndf,
                 kernel_size = 3, stride = 1, padding = 0\<rparr>, LeakyReLU]) #
            map (\<lambda>n. (layer n, Sequential
                 [Conv \<lparr>in_channels = ndf, out_channels = ndf, kernel_size = 3,
                        stride = 2, padding = 1\<rparr>, LeakyReLU])) [1..n_layers] @
            [(layer (n_layers + 1), Sequential [Conv \<lparr>in_channels = min (ndf * 2) disc_out,
                 out_channels = disc_out, kernel_size = 3, stride = 1, padding = 2\<rparr>,
                 LeakyReLU]),
             (layer (n_layers + 2), Conv \<lparr>in_channels = min (ndf * 2) disc_out,
                 out_channels = 1, kernel_size = 3, stride = 1, padding = 1\<rparr>)]\<rparr>"
proof -
  have loop: "MelGAN_layers [1..n_layers] [(layer 0, m0)] ndf = Inr r \<longleftrightarrow>
           ([1..n_layers] = [] \<or> 0 \<le> ndf) \<and>
           r = [(layer 0, m0)] @ map (\<lambda>n. (layer n, Sequential
                 [Conv \<lparr>in_channels = ndf, out_channels = ndf, kernel_size = 3,
                        stride = 2, padding = 1\<rparr>, LeakyReLU])) [1..n_layers]" for m0 r
    by (rule MelGAN_layers_Inr_iff) auto
  have set1: "ModuleDict_set ((layer 0, m0) # map (\<lambda>n. (layer n, f n)) [1..n_layers])
                 (layer (n_layers + 1)) m1
              = (layer 0, m0) # map (\<lambda>n. (layer n, f n)) [1..n_layers]
                  @ [(layer (n_layers + 1), m1)]"
    for m0 m1 :: module and f
    using assms
    ModuleDict_set_fresh [of "layer (n_layers + 1)"
        "(layer 0, m0) # map (\<lambda>n. (layer n, f n)) [1..n_layers]" m1]
    by (auto simp: image_iff)
  have set2: "ModuleDict_set ((layer 0, m0) # map (\<lambda>n. (layer n, f n)) [1..n_layers]
                  @ [(layer (n_layers + 1), m1)])
                 (layer (n_layers + 2)) m2
              = (layer 0, m0) # map (\<lambda>n. (layer n, f n)) [1..n_layers]
                  @ [(layer (n_layers + 1), m1), (layer (n_layers + 2), m2)]"
    for m0 m1 m2 :: module and f
    using assms
    ModuleDict_set_fresh [of "layer (n_layers + 2)"
        "(layer 0, m0) # map (\<lambda>n. (layer n, f n)) [1..n_layers]
            @ [(layer (n_layers + 1), m1)]" m2]
    by (auto simp: image_iff)
  have set0: "ModuleDict_set [] (layer 0) m0 = [(layer 0, m0)]" for m0 :: module
    by simp
  show ?thesis
    unfolding MelGANDiscriminator_init_def Let_def
    by (auto simp: and_then_Inr_iff weight_norm_def Conv1d_init_Inr_iff loop set0 set1 set2
          simp del: ModuleDict_set.simps)
qed


lemma Sequential_conv_relu:
  "module_forward (Sequential [Conv c, LeakyReLU]) x = Conv1d_forward c x"
  by (cases "Conv1d_forward c x") simp_all

lemma Conv1d_forward_error: "Conv1d_forward c x = Inl e \<Longrightarrow> e = RuntimeError"
  by (auto simp: Conv1d_forward_def conv_shape_def split: list.splits if_splits)

lemma Conv1d_forward_wrong_channels:
  assumes "channels x = Some (nat ndf)" "0 < ndf" "in_channels c \<noteq> ndf"
  shows "Conv1d_forward c x = Inl RuntimeError"
proof (cases "Conv1d_forward c x")
  case (Inl e)
  then show ?thesis using Conv1d_forward_error by blast
next
  case (Inr r)
  from Conv1d_forward_channels [OF Inr] assms(1)
  have "nat (in_channels c) = nat ndf" by simp
  with assms(2,3) show ?thesis by simp
qed

lemma MelGAN_loop_channel_mismatch:
  assumes "\<forall>(k, m)\<in>set pre. \<exists>c. m = Sequential [Conv c, LeakyReLU] \<and>
             out_channels c = ndf \<and> in_channels c \<noteq> 0"
    and "pre \<noteq> [] \<or> channels x = Some (nat ndf)"
    and "0 < ndf" and "in_channels c1 \<noteq> ndf"
  shows "MelGAN_loop (pre @ (k1, Sequential [Conv c1, LeakyReLU]) # post) x fs
           = Inl RuntimeError"
  using assms(1,2)
proof (induction pre arbitrary: x fs)
  case Nil
  then have "channels x = Some (nat ndf)" by simp
  from Conv1d_forward_wrong_channels [OF this assms(3,4)]
  show ?case by (simp add: Sequential_conv_relu)
next
  case (Cons it pre)
  obtain k m where it: "it = (k, m)" by (cases it)
  with Cons.prems(1) obtain c where m: "m = Sequential [Conv c, LeakyReLU]"
    and c: "out_channels c = ndf" "in_channels c \<noteq> 0" by auto
  from Cons.prems(1) have rest:
    "\<forall>(k, m)\<in>set pre. \<exists>c. m = Sequential [Conv c, LeakyReLU] \<and>
       out_channels c = ndf \<and> in_channels c \<noteq> 0"
    by simp
  show ?case
  proof (cases "Conv1d_forward c x")
    case (Inl e)
    with Conv1d_forward_error [OF Inl] show ?thesis
      by (simp add: it m Sequential_conv_relu del: module_forward.simps)
  next
    case (Inr r)
    from Conv1d_forward_channels [OF Inr] c have "channels r = Some (nat ndf)" by simp
    then have "pre \<noteq> [] \<or> channels r = Some (nat ndf)" by simp
    from Cons.IH [OF rest this] Inr show ?thesis
      by (simp add: it m Sequential_conv_relu del: module_forward.simps)
  qed
qed

lemma MelGANDiscriminator_forward_mismatch:
  assumes "MelGANDiscriminator_init input_dim ndf n_layers disc_out = Inr D"
    and "0 \<le> n_layers" and "disc_out \<noteq> ndf"
    and "0 < input_dim" and pos: "0 < ndf"
  shows "MelGANDiscriminator_forward D x = Inl RuntimeError"
proof -
  let ?pre = "(layer 0, Sequential [Conv \<lparr>in_channels = input_dim, out_channels = ndf,
                 kernel_size = 3, stride = 1, padding = 0\<rparr>, LeakyReLU]) #
            map (\<lambda>n. (layer n, Sequential
                 [Conv \<lparr>in_channels = ndf, out_channels = ndf, kernel_size = 3,
                        stride = 2, padding = 1\<rparr>, LeakyReLU])) [1..n_layers]"
  let ?c1 = "\<lparr>in_channels = min (ndf * 2) disc_out,
                 out_channels = disc_out, kernel_size = 3, stride = 1, padding = 2\<rparr>"
  let ?post = "[(layer (n_layers + 2), Conv \<lparr>in_channels = min (ndf * 2) disc_out,
                 out_channels = 1, kernel_size = 3, stride = 1, padding = 1\<rparr>)]"
  from assms(1,2) have D: "melgan_discriminator D
              = ?pre @ (layer (n_layers + 1), Sequential [Conv ?c1, LeakyReLU]) # ?post"
    by (simp_all add: MelGANDiscriminator_init_Inr_iff)
  have pre: "\<forall>(k, m)\<in>set ?pre. \<exists>c. m = Sequential [Conv c, LeakyReLU] \<and>
               out_channels c = ndf \<and> in_channels c \<noteq> 0"
    using assms(4) pos by auto
  have ne: "?pre \<noteq> [] \<or> channels x = Some (nat ndf)" by simp
  have c1: "in_channels ?c1 \<noteq> ndf" using pos assms(3) by auto
  have "MelGAN_loop (melgan_discriminator D) x [] = Inl RuntimeError"
    unfolding D by (rule MelGAN_loop_channel_mismatch [OF pre ne pos c1])
  then show ?thesis by (simp add: MelGANDiscriminator_forward_def)
qed

lemma MelGANDiscriminator_equal_widths:
  "MelGANDiscriminator_run 80 16 3 16 [4, 80, 300]
     = Inr ([[4, 16, 298], [4, 16, 149], [4, 16, 75], [4, 16, 38], [4, 16, 40]], [4, 1, 40])"
proof -
  have l: "[1..3] = [1, 2, 3::int]" by code_simp
  obtain D where D: "MelGANDiscriminator_init 80 16 3 16 = Inr D"
    by (simp add: MelGANDiscriminator_init_Inr_iff)
  then have "melgan_discriminator D =
     [(layer 0, Sequential [Conv \<lparr>in_channels = 80, out_channels = 16,
                 kernel_size = 3, stride = 1, padding = 0\<rparr>, LeakyReLU]),
      (layer 1, Sequential [Conv \<lparr>in_channels = 16, out_channels = 16,
                 kernel_size = 3, stride = 2, padding = 1\<rparr>, LeakyReLU]),
      (layer 2, Sequential [Conv \<lparr>in_channels = 16, out_channels = 16,
                 kernel_size = 3, stride = 2, padding = 1\<rparr>, LeakyReLU]),
      (layer 3, Sequential [Conv \<lparr>in_channels = 16, out_channels = 16,
                 kernel_size = 3, stride = 2, padding = 1\<rparr>, LeakyReLU]),
      (layer 4, Sequential [Conv \<lparr>in_channels = 16, out_channels = 16,
                 kernel_size = 3, stride = 1, padding = 2\<rparr>, LeakyReLU]),
      (layer 5, Conv \<lparr>in_channels = 16, out_channels = 1,
                 kernel_size = 3, stride = 1, padding = 1\<rparr>)]"
    by (simp add: MelGANDiscriminator_init_Inr_iff l)
  then have "MelGANDiscriminator_forward D [4, 80, 300]
     = Inr ([[4, 16, 298], [4, 16, 149], [4, 16, 75], [4, 16, 38], [4, 16, 40]], [4, 1, 40])"
    by (simp add: MelGANDiscriminator_forward_def Conv1d_forward_def conv_shape_def)
  with D show ?thesis by (simp add: MelGANDiscriminator_run_def)
qed

subsection \<open>The exceptions a forward pass can raise\<close>












lemma all_less_iff_all_from_1:
  "(\<forall>j<n. P j (Suc j)) \<longleftrightarrow> (\<forall>k\<in>{1..n}. P (k - 1) k)"
proof
  assume a: "\<forall>j<n. P j (Suc j)"
  show "\<forall>k\<in>{1..n}. P (k - 1) k"
  proof
    fix k assume "k \<in> {1..n}"
    then have "k - 1 < n" and "Suc (k - 1) = k" by auto
    with a [rule_format, of "k - 1"] show "P (k - 1) k" by simp
  qed
next
  assume a: "\<forall>k\<in>{1..n}. P (k - 1) k"
  show "\<forall>j<n. P j (Suc j)"
  proof (intro allI impI)
    fix j assume "j < n"
    then have "Suc j \<in> {1..n}" by auto
    from a [rule_format, OF this] show "P j (Suc j)" by simp
  qed
qed

section \<open>Properties of \<^verbatim>\<open>Dblock\<close>\<close>

text \<open>
  Claim C6, as amended. For every \<open>Dblock(input_dim, output_dim, hidden_dim)\<close>
  constructed with positive channel counts and inputs \<open>spec\<close> of shape
  \<open>(batch, input_dim, L)\<close> and \<open>cond\<close> of shape \<open>(batch, hidden_dim, L)\<close> with
  \<open>L \<ge> 1\<close>, \<open>forward\<close> returns two tensors of shapes \<open>(batch, output_dim, L)\<close> and
  \<open>(batch, hidden_dim, L)\<close>. The block has four convolutions; each has kernel size 3,
  stride 1 and padding 1 and maps a tensor of its input channel count and length \<open>L\<close> to
  one of its output channel count and the same length \<open>L\<close>.
\<close>

theorem Dblock_forward_shapes:
  assumes "Dblock_init input_dim output_dim hidden_dim = Inr blk"
    and pos: "0 < input_dim" "0 < output_dim" "0 < hidden_dim"
    and L: "1 \<le> L"
  shows "Dblock_forward blk [batch, nat input_dim, L] [batch, nat hidden_dim, L]
           = Inr ([batch, nat output_dim, L], [batch, nat hidden_dim, L]) \<and>
         length (Dblock_convs blk) = 4 \<and>
         (\<forall>c \<in> set (Dblock_convs blk).
            kernel_size c = 3 \<and> stride c = 1 \<and> padding c = 1 \<and>
            Conv1d_forward c [batch, nat (in_channels c), L]
              = Inr [batch, nat (out_channels c), L])"
proof -
  from assms(1) have blk: "blk = Dblock_of input_dim output_dim hidden_dim"
    by (simp add: Dblock_init_Inr_iff)
  have fwd: "Dblock_forward blk [batch, nat input_dim, L] [batch, nat hidden_dim, L]
           = Inr ([batch, nat output_dim, L], [batch, nat hidden_dim, L])"
    unfolding blk by (rule Dblock_of_forward [OF pos L])
  have convs: "Dblock_convs blk =
     [\<lparr>in_channels = input_dim, out_channels = output_dim, kernel_size = 3, stride = 1, padding = 1\<rparr>,
      \<lparr>in_channels = hidden_dim, out_channels = output_dim, kernel_size = 3, stride = 1, padding = 1\<rparr>,
      \<lparr>in_channels = output_dim, out_channels = output_dim, kernel_size = 3, stride = 1, padding = 1\<rparr>,
      \<lparr>in_channels = output_dim, out_channels = hidden_dim, kernel_size = 3, stride = 1, padding = 1\<rparr>]"
    by (simp add: blk Dblock_convs_def Dblock_of_def)
  have each: "\<forall>c \<in> set (Dblock_convs blk).
            kernel_size c = 3 \<and> stride c = 1 \<and> padding c = 1 \<and>
            Conv1d_forward c [batch, nat (in_channels c), L]
              = Inr [batch, nat (out_channels c), L]"
    unfolding convs using pos L by (simp add: Conv1d_forward_same_length)
  from fwd convs each show ?thesis by simp
qed

theorem Dblock_forward_shapes_witness:
  "\<not> isl (Dblock_init 80 160 256) \<and>
   (0::int) < 80 \<and> (0::int) < 160 \<and> (0::int) < 256 \<and> (1::nat) \<le> 300 \<and>
   Dblock_run 80 160 256 [4, 80, 300] [4, 256, 300] = Inr ([4, 160, 300], [4, 256, 300])"
proof -
  obtain blk where blk: "Dblock_init 80 160 256 = Inr blk"
    by (simp add: Dblock_init_Inr_iff)
  have h: "(0::int) < 80" "(0::int) < 160" "(0::int) < 256" "(1::nat) \<le> 300"
    by simp_all
  from Dblock_forward_shapes [OF blk h, of 4] show ?thesis
    by (simp add: Dblock_run_def blk)
qed

text \<open>
  The claim as it was stated puts no bound on \<open>L\<close>. An empty sequence, \<open>L = 0\<close>, is a
  shape the block can be given; its padded length 2 does not hold a kernel of size 3, and
  the first convolution raises.
\<close>

theorem Dblock_forward_empty_counterexample:
  "\<not> isl (Dblock_init 80 160 256) \<and>
   Dblock_run 80 160 256 [4, 80, 0] [4, 256, 0] = Inl RuntimeError"
  by (simp add: Dblock_run_def Dblock_init_def weight_norm_def Conv1d_init_def
        Dblock_forward_def Conv1d_forward_def conv_shape_def)


section \<open>Properties of \<^verbatim>\<open>MSGDiscriminator\<close>\<close>

text \<open>
  Claim C4, as amended. For any \<open>MSGDiscriminator\<close> module and any inputs \<open>x\<close>,
  \<open>y\<close>, \<open>forward\<close> returns \<open>(feats, score)\<close> exactly when there are tensors
  \<open>x\<^sub>0 = x, x\<^sub>1, ..., x\<^sub>n\<close> and \<open>y\<^sub>0 = y, y\<^sub>1, ..., y\<^sub>n\<close>, \<open>n\<close> the number of blocks, with
  \<open>(x\<^sub>k, y\<^sub>k) = block\<^sub>k(x\<^sub>k\<^sub>-\<^sub>1, y\<^sub>k\<^sub>-\<^sub>1)\<close> for the blocks in the order of the
  dictionary, \<open>feats = [x\<^sub>1, ..., x\<^sub>n]\<close> and
  \<open>score = flatten(disc_spec(x\<^sub>n) + disc_cond(y\<^sub>n))\<close>. For every
  \<open>MSGDiscriminator(nf, n_layers, hidden_dim)\<close> that the constructor builds, the blocks
  are \<open>n_layers\<close> many (none for \<open>n_layers \<le> 0\<close>), under the keys
  \<open>layer_1 .. layer_n_layers\<close> in this order. With positive \<open>nf\<close> and
  \<open>hidden_dim\<close> and inputs \<open>x\<close> of shape \<open>(batch, nf, L)\<close> and \<open>y\<close> of shape
  \<open>(batch, hidden_dim, L)\<close> with \<open>L \<ge> 1\<close>: the block under \<open>layer_k\<close> maps shapes
  \<open>(batch, nf * 2^(k-1), L)\<close> and \<open>(batch, hidden_dim, L)\<close> to shapes
  \<open>(batch, nf * 2^k, L)\<close> and \<open>(batch, hidden_dim, L)\<close>; the two heads map
  \<open>x\<^sub>n\<close> and \<open>y\<^sub>n\<close> to shape \<open>(batch, 1, L)\<close>, their sum flattens to
  \<open>(batch, L)\<close>; and \<open>forward\<close> returns the list \<open>[x\<^sub>1, ..., x\<^sub>n]\<close> together with
  that score of shape \<open>(batch, L)\<close>.
\<close>

theorem MSGDiscriminator_forward_chain:
  "(MSGDiscriminator_forward D x y = Inr (feats, score) \<longleftrightarrow>
      (\<exists>xs ys a c out. xs 0 = x \<and> ys 0 = y \<and>
         (\<forall>k\<in>{1..length (discriminator D)}.
            Dblock_forward (snd (discriminator D ! (k - 1))) (xs (k - 1)) (ys (k - 1))
              = Inr (xs k, ys k)) \<and>
         feats = map xs [1..<Suc (length (discriminator D))] \<and>
         Conv1d_forward (disc_spec D) (xs (length (discriminator D))) = Inr a \<and>
         Conv1d_forward (disc_cond D) (ys (length (discriminator D))) = Inr c \<and>
         tensor_add a c = Inr out \<and> flatten_1_end out = Inr score)) \<and>
   (MSGDiscriminator_init nf n_layers hidden_dim = Inr D \<longrightarrow>
      map fst (discriminator D) = map layer [1..n_layers] \<and>
      length (discriminator D) = nat n_layers) \<and>
   (MSGDiscriminator_init nf n_layers hidden_dim = Inr D \<and>
    0 < nf \<and> 0 < hidden_dim \<and> 1 \<le> L \<longrightarrow>
      (\<forall>k\<in>{1..nat n_layers}. \<exists>blk.
          discriminator D ! (k - 1) = (layer (int k), blk) \<and>
          Dblock_forward blk [batch, nat (nf * 2 ^ (k - 1)), L] [batch, nat hidden_dim, L]
            = Inr ([batch, nat (nf * 2 ^ k), L], [batch, nat hidden_dim, L])) \<and>
      Conv1d_forward (disc_spec D) [batch, nat (nf * 2 ^ nat n_layers), L]
        = Inr [batch, 1, L] \<and>
      Conv1d_forward (disc_cond D) [batch, nat hidden_dim, L] = Inr [batch, 1, L] \<and>
      tensor_add [batch, 1, L] [batch, 1, L] = Inr [batch, 1, L] \<and>
      flatten_1_end [batch, 1, L] = Inr [batch, L] \<and>
      MSGDiscriminator_forward D [batch, nat nf, L] [batch, nat hidden_dim, L]
        = Inr (map (\<lambda>k. [batch, nat (nf * 2 ^ k), L]) [1..<Suc (nat n_layers)],
               [batch, L]))"
  (is "(?L \<longleftrightarrow> ?R) \<and> (?init \<longrightarrow> ?keys) \<and> (?pre \<longrightarrow> ?shapes)")
proof -
  have loop_chain: "MSG_loop items x y fs = Inr (x', y', fs') \<longleftrightarrow>
     (\<exists>xs ys. xs 0 = x \<and> ys 0 = y \<and>
        (\<forall>j<length items.
           Dblock_forward (snd (items ! j)) (xs j) (ys j) = Inr (xs (Suc j), ys (Suc j))) \<and>
        x' = xs (length items) \<and> y' = ys (length items) \<and>
        fs' = fs @ map xs [1..<Suc (length items)])" for items x y fs x' y' fs'
  proof (induction items arbitrary: x y fs)
    case Nil
    show ?case
    proof
      assume "MSG_loop [] x y fs = Inr (x', y', fs')"
      then have "(\<lambda>_. x) 0 = x \<and> (\<lambda>_. y) 0 = y \<and> x' = x \<and> y' = y \<and> fs' = fs" by simp
      then show "\<exists>xs ys. xs 0 = x \<and> ys 0 = y \<and>
          (\<forall>j<length []. Dblock_forward (snd ([] ! j)) (xs j) (ys j)
               = Inr (xs (Suc j), ys (Suc j))) \<and>
          x' = xs (length []) \<and> y' = ys (length []) \<and>
          fs' = fs @ map xs [1..<Suc (length [])]"
        by (intro exI [of _ "\<lambda>_. x"] exI [of _ "\<lambda>_. y"]) simp
    next
      assume "\<exists>xs ys. xs 0 = x \<and> ys 0 = y \<and>
          (\<forall>j<length []. Dblock_forward (snd ([] ! j)) (xs j) (ys j)
               = Inr (xs (Suc j), ys (Suc j))) \<and>
          x' = xs (length []) \<and> y' = ys (length []) \<and>
          fs' = fs @ map xs [1..<Suc (length [])]"
      then show "MSG_loop [] x y fs = Inr (x', y', fs')" by auto
    qed
  next
    case (Cons it items)
    obtain k blk where it: "it = (k, blk)" by (cases it)
    let ?n = "length items"
    show ?case
    proof
      assume "MSG_loop (it # items) x y fs = Inr (x', y', fs')"
      then obtain x1 y1 where step: "Dblock_forward blk x y = Inr (x1, y1)"
        and rest: "MSG_loop items x1 y1 (fs @ [x1]) = Inr (x', y', fs')"
        by (auto simp: it and_then_Inr_iff)
      from rest [unfolded Cons.IH] obtain xs ys where
        xs: "xs 0 = x1" "ys 0 = y1"
        and chain: "\<forall>j<?n. Dblock_forward (snd (items ! j)) (xs j) (ys j)
                       = Inr (xs (Suc j), ys (Suc j))"
        and res: "x' = xs ?n" "y' = ys ?n" "fs' = (fs @ [x1]) @ map xs [1..<Suc ?n]"
        by blast
      let ?xs = "case_nat x xs" and ?ys = "case_nat y ys"
      have chain': "\<forall>j<Suc ?n. Dblock_forward (snd ((it # items) ! j)) (?xs j) (?ys j)
                       = Inr (?xs (Suc j), ?ys (Suc j))"
      proof (intro allI impI)
        fix j assume "j < Suc ?n"
        then show "Dblock_forward (snd ((it # items) ! j)) (?xs j) (?ys j)
                       = Inr (?xs (Suc j), ?ys (Suc j))"
          using step chain xs by (cases j) (simp_all add: it)
      qed
      have feats: "fs' = fs @ map ?xs [1..<Suc (Suc ?n)]"
        using res(3) xs(1) by (simp add: map_upt_shift del: upt_Suc)
      from chain' feats res(1,2)
      show "\<exists>xs ys. xs 0 = x \<and> ys 0 = y \<and>
          (\<forall>j<length (it # items).
             Dblock_forward (snd ((it # items) ! j)) (xs j) (ys j) = Inr (xs (Suc j), ys (Suc j))) \<and>
          x' = xs (length (it # items)) \<and> y' = ys (length (it # items)) \<and>
          fs' = fs @ map xs [1..<Suc (length (it # items))]"
        by (intro exI [of _ ?xs] exI [of _ ?ys]) (simp del: upt_Suc)
    next
      assume "\<exists>xs ys. xs 0 = x \<and> ys 0 = y \<and>
          (\<forall>j<length (it # items).
             Dblock_forward (snd ((it # items) ! j)) (xs j) (ys j) = Inr (xs (Suc j), ys (Suc j))) \<and>
          x' = xs (length (it # items)) \<and> y' = ys (length (it # items)) \<and>
          fs' = fs @ map xs [1..<Suc (length (it # items))]"
      then obtain xs ys where xs: "xs 0 = x" "ys 0 = y"
        and chain: "\<forall>j<Suc ?n. Dblock_forward (snd ((it # items) ! j)) (xs j) (ys j)
                       = Inr (xs (Suc j), ys (Suc j))"
        and res: "x' = xs (Suc ?n)" "y' = ys (Suc ?n)" "fs' = fs @ map xs [1..<Suc (Suc ?n)]"
        by auto
      from chain [rule_format, of 0] xs
      have step: "Dblock_forward blk x y = Inr (xs 1, ys 1)" by (simp add: it)
      have chain': "\<forall>j<?n. Dblock_forward (snd (items ! j)) ((xs \<circ> Suc) j) ((ys \<circ> Suc) j)
                       = Inr ((xs \<circ> Suc) (Suc j), (ys \<circ> Suc) (Suc j))"
      proof (intro allI impI)
        fix j assume "j < ?n"
        with chain [rule_format, of "Suc j"]
        show "Dblock_forward (snd (items ! j)) ((xs \<circ> Suc) j) ((ys \<circ> Suc) j)
                       = Inr ((xs \<circ> Suc) (Suc j), (ys \<circ> Suc) (Suc j))" by simp
      qed
      have feats: "fs' = (fs @ [xs 1]) @ map (xs \<circ> Suc) [1..<Suc ?n]"
        using res(3) by (simp add: map_upt_shift comp_def del: upt_Suc)
      have "MSG_loop items (xs 1) (ys 1) (fs @ [xs 1]) = Inr (x', y', fs')"
        unfolding Cons.IH
        using chain' feats res(1,2)
        by (intro exI [of _ "xs \<circ> Suc"] exI [of _ "ys \<circ> Suc"]) simp
      with step show "MSG_loop (it # items) x y fs = Inr (x', y', fs')"
        by (simp add: it)
    qed
  qed
  have flow: "?L \<longleftrightarrow> ?R"
  proof
    let ?n = "length (discriminator D)"
    assume ?L
    then obtain x' y' fs a c out where
      loop: "MSG_loop (discriminator D) x y [] = Inr (x', y', fs)"
      and a: "Conv1d_forward (disc_spec D) x' = Inr a"
      and c: "Conv1d_forward (disc_cond D) y' = Inr c"
      and out: "tensor_add a c = Inr out"
      and score: "flatten_1_end out = Inr score"
      and feats: "feats = fs"
      unfolding MSGDiscriminator_forward_def by (auto simp: and_then_Inr_iff)
    from loop [unfolded loop_chain] obtain xs ys where
      xs: "xs 0 = x" "ys 0 = y"
      and chain: "\<forall>j<?n. Dblock_forward (snd (discriminator D ! j)) (xs j) (ys j)
               = Inr (xs (Suc j), ys (Suc j))"
      and res: "x' = xs ?n" "y' = ys ?n" "fs = [] @ map xs [1..<Suc ?n]"
      by blast
    from chain have chain': "\<forall>k\<in>{1..?n}. Dblock_forward (snd (discriminator D ! (k - 1)))
                     (xs (k - 1)) (ys (k - 1)) = Inr (xs k, ys k)"
      by (rule all_less_iff_all_from_1 [where P = "\<lambda>i k.
            Dblock_forward (snd (discriminator D ! i)) (xs i) (ys i) = Inr (xs k, ys k)",
            THEN iffD1])
    have fs: "feats = map xs [1..<Suc ?n]" using feats res(3) by simp
    from xs chain' fs a c out score res(1,2) show ?R
      by (intro exI [of _ xs] exI [of _ ys] exI [of _ a] exI [of _ c] exI [of _ out])
         (simp del: upt_Suc)
  next
    let ?n = "length (discriminator D)"
    assume ?R
    then obtain xs ys a c out where
      xs: "xs 0 = x" "ys 0 = y"
      and chain: "\<forall>k\<in>{1..?n}. Dblock_forward (snd (discriminator D ! (k - 1)))
                     (xs (k - 1)) (ys (k - 1)) = Inr (xs k, ys k)"
      and feats: "feats = map xs [1..<Suc ?n]"
      and a: "Conv1d_forward (disc_spec D) (xs ?n) = Inr a"
      and c: "Conv1d_forward (disc_cond D) (ys ?n) = Inr c"
      and out: "tensor_add a c = Inr out"
      and score: "flatten_1_end out = Inr score"
      by blast
    from chain have chain': "\<forall>j<?n. Dblock_forward (snd (discriminator D ! j)) (xs j) (ys j)
               = Inr (xs (Suc j), ys (Suc j))"
      by (rule all_less_iff_all_from_1 [where P = "\<lambda>i k.
            Dblock_forward (snd (discriminator D ! i)) (xs i) (ys i) = Inr (xs k, ys k)",
            THEN iffD2])
    have "\<exists>xs' ys'. xs' 0 = x \<and> ys' 0 = y \<and>
          (\<forall>j<?n. Dblock_forward (snd (discriminator D ! j)) (xs' j) (ys' j)
               = Inr (xs' (Suc j), ys' (Suc j))) \<and>
          xs ?n = xs' ?n \<and> ys ?n = ys' ?n \<and> feats = [] @ map xs' [1..<Suc ?n]"
      using xs chain' feats
      by (intro exI [of _ xs] exI [of _ ys]) (simp del: upt_Suc)
    then have "MSG_loop (discriminator D) x y [] = Inr (xs ?n, ys ?n, feats)"
      by (simp only: loop_chain)
    with a c out score show ?L
      unfolding MSGDiscriminator_forward_def by simp
  qed
  have keys: ?keys if ?init
    using that
    by (simp add: MSGDiscriminator_init_Inr_iff doubling_chain_keys doubling_chain_length)
  have shapes: ?shapes if ?pre
  proof -
    from that have init: "MSGDiscriminator_init nf n_layers hidden_dim = Inr D"
      and pos: "0 < nf" "0 < hidden_dim" and L: "1 \<le> L" by simp_all
    from init have D: "D = \<lparr>disc_spec = \<lparr>in_channels = nf * 2 ^ nat n_layers, out_channels = 1,
                                kernel_size = 3, stride = 1, padding = 1\<rparr>,
                   disc_cond = \<lparr>in_channels = hidden_dim, out_channels = 1,
                                kernel_size = 3, stride = 1, padding = 1\<rparr>,
                   discriminator = doubling_chain [1..n_layers] nf hidden_dim\<rparr>"
      by (simp add: MSGDiscriminator_init_Inr_iff)
    have pos': "0 < nf * 2 ^ k" for k using pos by simp
    have blocks: "\<exists>blk. discriminator D ! (k - 1) = (layer (int k), blk) \<and>
               Dblock_forward blk [batch, nat (nf * 2 ^ (k - 1)), L] [batch, nat hidden_dim, L]
                 = Inr ([batch, nat (nf * 2 ^ k), L], [batch, nat hidden_dim, L])"
      if "k \<in> {1..nat n_layers}" for k
    proof -
      from that have k: "k - 1 < nat n_layers" "Suc (k - 1) = k" by auto
      have "discriminator D ! (k - 1)
              = (layer (int k), Dblock_of (nf * 2 ^ (k - 1)) (nf * 2 ^ k) hidden_dim)"
        using doubling_chain_nth [of "k - 1" "[1..n_layers]" nf hidden_dim] k
        by (simp add: D upto_nth_from_1)
      moreover have "Dblock_forward (Dblock_of (nf * 2 ^ (k - 1)) (nf * 2 ^ k) hidden_dim)
           [batch, nat (nf * 2 ^ (k - 1)), L] [batch, nat hidden_dim, L]
                 = Inr ([batch, nat (nf * 2 ^ k), L], [batch, nat hidden_dim, L])"
        by (rule Dblock_of_forward [OF pos' pos' pos(2) L])
      ultimately show ?thesis by simp
    qed
    have spec: "Conv1d_forward (disc_spec D) [batch, nat (nf * 2 ^ nat n_layers), L]
                  = Inr [batch, 1, L]"
      using Conv1d_forward_3 [where cin = "nf * 2 ^ nat n_layers" and cout = 1 and k = 3
          and s = 1 and p = 1 and l = L and b = batch] pos' L
      by (simp add: D)
    have cond: "Conv1d_forward (disc_cond D) [batch, nat hidden_dim, L] = Inr [batch, 1, L]"
      using Conv1d_forward_3 [where cin = hidden_dim and cout = 1 and k = 3
          and s = 1 and p = 1 and l = L and b = batch] pos(2) L
      by (simp add: D)
    have flat: "flatten_1_end [batch, 1, L] = Inr [batch, L]"
      by (simp add: flatten_1_end_def)
    from blocks spec cond flat tensor_add_same [of "[batch, 1, L]"]
      MSGDiscriminator_forward_doubling_chain [OF init L pos, of batch]
    show ?thesis by blast
  qed
  from flow keys shapes show ?thesis by blast
qed

theorem MSGDiscriminator_forward_chain_witness:
  "\<not> isl (MSGDiscriminator_init 80 4 256) \<and>
   (0::int) < 80 \<and> (0::int) < 256 \<and> (1::nat) \<le> 300 \<and>
   map_sum id (map fst \<circ> discriminator) (MSGDiscriminator_init 80 4 256)
     = Inr [layer 1, layer 2, layer 3, layer 4] \<and>
   MSGDiscriminator_run 80 4 256 [4, 80, 300] [4, 256, 300]
     = Inr ([[4, 160, 300], [4, 320, 300], [4, 640, 300], [4, 1280, 300]], [4, 300])"
proof -
  obtain D where D: "MSGDiscriminator_init 80 4 256 = Inr D"
    by (simp add: MSGDiscriminator_init_Inr_iff)
  have u: "[1..<Suc (nat 4)] = [1, 2, 3, 4]" and l: "[1..4] = [1, 2, 3, 4::int]"
    by code_simp+
  from MSGDiscriminator_forward_chain [where D = D and nf = 80 and n_layers = 4
      and hidden_dim = 256 and L = 300 and batch = 4] D u
  show ?thesis
    by (simp add: MSGDiscriminator_run_def l)
qed

text \<open>
  As the claim was stated, without a bound on \<open>L\<close>, it fails for the empty sequence:
  the first convolution of \<open>layer_1\<close> raises.
\<close>

theorem MSGDiscriminator_forward_empty_counterexample:
  "\<not> isl (MSGDiscriminator_init 80 4 256) \<and>
   MSGDiscriminator_run 80 4 256 [4, 80, 0] [4, 256, 0] = Inl RuntimeError"
proof -
  have l: "[1..4] = [1, 2, 3, 4::int]" by code_simp
  obtain D where D: "MSGDiscriminator_init 80 4 256 = Inr D"
    by (simp add: MSGDiscriminator_init_Inr_iff)
  then have "discriminator D = doubling_chain [1, 2, 3, 4] 80 256"
    by (auto simp: MSGDiscriminator_init_Inr_iff l)
  then have "MSGDiscriminator_forward D [4, 80, 0] [4, 256, 0] = Inl RuntimeError"
    by (simp add: MSGDiscriminator_forward_def Dblock_of_def Dblock_forward_def
          Conv1d_forward_def conv_shape_def)
  with D show ?thesis by (simp add: MSGDiscriminator_run_def)
qed




text \<open>
  Claim C10, as amended. For every \<open>MSGDiscriminator(nf, n_layers, hidden_dim)\<close>
  constructed with positive \<open>nf\<close> and \<open>hidden_dim\<close>, the channel counts form a
  doubling chain: the block under \<open>layer_k\<close>
  (\<open>k = 1 .. n_layers\<close>) is \<open>Dblock(nf * 2^(k-1), nf * 2^k, hidden_dim)\<close>, whose four
  convolutions take \<open>nf * 2^(k-1)\<close>, \<open>hidden_dim\<close>, \<open>nf * 2^k\<close>, \<open>nf * 2^k\<close>
  channels and produce \<open>nf * 2^k\<close>, \<open>nf * 2^k\<close>, \<open>nf * 2^k\<close>, \<open>hidden_dim\<close>; after
  the first \<open>k\<close> blocks of a forward pass the spec stream, which is feature \<open>k\<close>, has
  \<open>nf * 2^k\<close> channels and the condition stream has \<open>hidden_dim\<close> channels; every
  feature \<open>k\<close> that \<open>forward\<close> returns has \<open>nf * 2^k\<close> channels; and the heads
  \<open>disc_spec\<close> and \<open>disc_cond\<close> are configured for \<open>nf * 2^n_layers\<close> and
  \<open>hidden_dim\<close> input channels and 1 output channel, and whenever one of them returns
  it was given that many channels and has produced 1 channel. On inputs of shapes
  \<open>(batch, nf, L)\<close> and \<open>(batch, hidden_dim, L)\<close> with \<open>L \<ge> 1\<close> the forward pass
  returns these features.
\<close>

theorem MSGDiscriminator_channels:
  assumes "MSGDiscriminator_init nf n_layers hidden_dim = Inr D"
    and pos: "0 < nf" "0 < hidden_dim"
  shows "map fst (discriminator D) = map layer [1..n_layers] \<and>
         (\<forall>k\<in>{1..nat n_layers}. \<exists>blk.
            discriminator D ! (k - 1) = (layer (int k), blk) \<and>
            Dblock_init (nf * 2 ^ (k - 1)) (nf * 2 ^ k) hidden_dim = Inr blk \<and>
            map in_channels (Dblock_convs blk)
              = [nf * 2 ^ (k - 1), hidden_dim, nf * 2 ^ k, nf * 2 ^ k] \<and>
            map out_channels (Dblock_convs blk)
              = [nf * 2 ^ k, nf * 2 ^ k, nf * 2 ^ k, hidden_dim]) \<and>
         (\<forall>k\<in>{1..nat n_layers}. \<forall>x y xk yk fs.
            MSG_loop (take k (discriminator D)) x y [] = Inr (xk, yk, fs) \<longrightarrow>
            channels xk = Some (nat (nf * 2 ^ k)) \<and> channels yk = Some (nat hidden_dim) \<and>
            last fs = xk) \<and>
         (\<forall>x y feats score. MSGDiscriminator_forward D x y = Inr (feats, score) \<longrightarrow>
            (\<forall>k\<in>{1..nat n_layers}. channels (feats ! (k - 1)) = Some (nat (nf * 2 ^ k)))) \<and>
         in_channels (disc_spec D) = nf * 2 ^ nat n_layers \<and> out_channels (disc_spec D) = 1 \<and>
         in_channels (disc_cond D) = hidden_dim \<and> out_channels (disc_cond D) = 1 \<and>
         (\<forall>t r. Conv1d_forward (disc_spec D) t = Inr r \<longrightarrow>
            channels t = Some (nat (nf * 2 ^ nat n_layers)) \<and> channels r = Some 1) \<and>
         (\<forall>t r. Conv1d_forward (disc_cond D) t = Inr r \<longrightarrow>
            channels t = Some (nat hidden_dim) \<and> channels r = Some 1) \<and>
         (1 \<le> L \<longrightarrow>
            MSGDiscriminator_forward D [batch, nat nf, L] [batch, nat hidden_dim, L]
              = Inr (map (\<lambda>k. [batch, nat (nf * 2 ^ k), L]) [1..<Suc (nat n_layers)],
                     [batch, L]))"
proof -
  have returns: "MSGDiscriminator_forward D [batch, nat nf, L] [batch, nat hidden_dim, L]
              = Inr (map (\<lambda>k. [batch, nat (nf * 2 ^ k), L]) [1..<Suc (nat n_layers)],
                     [batch, L])" if "1 \<le> L"
    by (rule MSGDiscriminator_forward_doubling_chain [OF assms(1) that pos])
  from assms(1) have D: "D = \<lparr>disc_spec = \<lparr>in_channels = nf * 2 ^ nat n_layers, out_channels = 1,
                              kernel_size = 3, stride = 1, padding = 1\<rparr>,
                 disc_cond = \<lparr>in_channels = hidden_dim, out_channels = 1,
                              kernel_size = 3, stride = 1, padding = 1\<rparr>,
                 discriminator = doubling_chain [1..n_layers] nf hidden_dim\<rparr>"
    by (simp add: MSGDiscriminator_init_Inr_iff)
  have chain: "discriminator D = doubling_chain [1..n_layers] nf hidden_dim"
    by (simp add: D)
  have pos': "0 < nf * 2 ^ k" for k using pos by simp
  have keys: "map fst (discriminator D) = map layer [1..n_layers]"
    by (simp add: D doubling_chain_keys)
  have blocks: "\<exists>blk.
            discriminator D ! (k - 1) = (layer (int k), blk) \<and>
            Dblock_init (nf * 2 ^ (k - 1)) (nf * 2 ^ k) hidden_dim = Inr blk \<and>
            map in_channels (Dblock_convs blk)
              = [nf * 2 ^ (k - 1), hidden_dim, nf * 2 ^ k, nf * 2 ^ k] \<and>
            map out_channels (Dblock_convs blk)
              = [nf * 2 ^ k, nf * 2 ^ k, nf * 2 ^ k, hidden_dim]"
    if "k \<in> {1..nat n_layers}" for k
  proof -
    from that have k: "k - 1 < nat n_layers" "Suc (k - 1) = k" by auto
    have "discriminator D ! (k - 1)
            = (layer (int k), Dblock_of (nf * 2 ^ (k - 1)) (nf * 2 ^ k) hidden_dim)"
      using doubling_chain_nth [of "k - 1" "[1..n_layers]" nf hidden_dim] k
      by (simp add: D upto_nth_from_1)
    moreover have "Dblock_init (nf * 2 ^ (k - 1)) (nf * 2 ^ k) hidden_dim
                     = Inr (Dblock_of (nf * 2 ^ (k - 1)) (nf * 2 ^ k) hidden_dim)"
      using pos by (simp add: Dblock_init_Inr_iff)
    ultimately show ?thesis
      using Dblock_of_convs [of "nf * 2 ^ (k - 1)" "nf * 2 ^ k" hidden_dim] by simp
  qed
  have stream: "channels xk = Some (nat (nf * 2 ^ k)) \<and> channels yk = Some (nat hidden_dim) \<and>
            last fs = xk"
    if k: "k \<in> {1..nat n_layers}"
      and loop: "MSG_loop (take k (discriminator D)) x y [] = Inr (xk, yk, fs)"
    for k x y xk yk fs
  proof -
    from k have len: "length (take k [1..n_layers]) = k" and ne: "take k [1..n_layers] \<noteq> []"
      by auto
    from loop have "MSG_loop (doubling_chain (take k [1..n_layers]) nf hidden_dim) x y []
                      = Inr (xk, yk, fs)"
      by (simp add: chain doubling_chain_take)
    from MSG_loop_doubling_chain_channels [OF this pos] ne len show ?thesis by simp
  qed
  have feats: "channels (feats ! (k - 1)) = Some (nat (nf * 2 ^ k))"
    if fwd: "MSGDiscriminator_forward D x y = Inr (feats, score)"
      and k: "k \<in> {1..nat n_layers}"
    for x y feats score k
  proof -
    from MSGDiscriminator_forward_features [OF fwd] obtain x' y' where
      "MSG_loop (doubling_chain [1..n_layers] nf hidden_dim) x y [] = Inr (x', y', feats)"
      by (auto simp: chain)
    from MSG_loop_doubling_chain_channels [OF this pos]
    have all: "\<forall>j<nat n_layers. channels (feats ! j) = Some (nat (nf * 2 ^ Suc j))"
      by simp
    from k have "k - 1 < nat n_layers" and "Suc (k - 1) = k" by auto
    with all [rule_format, of "k - 1"] show ?thesis by simp
  qed
  have heads: "in_channels (disc_spec D) = nf * 2 ^ nat n_layers \<and> out_channels (disc_spec D) = 1 \<and>
         in_channels (disc_cond D) = hidden_dim \<and> out_channels (disc_cond D) = 1"
    by (simp add: D)
  have head_spec: "channels t = Some (nat (nf * 2 ^ nat n_layers)) \<and> channels r = Some 1"
    if "Conv1d_forward (disc_spec D) t = Inr r" for t r
    using Conv1d_forward_channels [OF that] pos by (simp add: D)
  have head_cond: "channels t = Some (nat hidden_dim) \<and> channels r = Some 1"
    if "Conv1d_forward (disc_cond D) t = Inr r" for t r
    using Conv1d_forward_channels [OF that] pos(2) by (simp add: D)
  from keys blocks stream feats heads head_spec head_cond returns show ?thesis by blast
qed

theorem MSGDiscriminator_channels_witness:
  "\<not> isl (MSGDiscriminator_init 80 4 256) \<and> (0::int) < 80 \<and> (0::int) < 256 \<and>
   map_sum id (map fst \<circ> discriminator) (MSGDiscriminator_init 80 4 256)
     = Inr [layer 1, layer 2, layer 3, layer 4] \<and>
   map_sum id (in_channels \<circ> disc_spec) (MSGDiscriminator_init 80 4 256) = Inr 1280 \<and>
   map_sum id (out_channels \<circ> disc_spec) (MSGDiscriminator_init 80 4 256) = Inr 1 \<and>
   map_sum id (in_channels \<circ> disc_cond) (MSGDiscriminator_init 80 4 256) = Inr 256 \<and>
   map_sum id (out_channels \<circ> disc_cond) (MSGDiscriminator_init 80 4 256) = Inr 1"
proof -
  obtain D where D: "MSGDiscriminator_init 80 4 256 = Inr D"
    by (simp add: MSGDiscriminator_init_Inr_iff)
  have l: "[1..4] = [1, 2, 3, 4::int]" by code_simp
  have h: "(0::int) < 80" "(0::int) < 256" by simp_all
  from MSGDiscriminator_channels [OF D h] show ?thesis
    by (simp add: D l)
qed

text \<open>
  As stated, the claim holds for every \<open>MSGDiscriminator(nf, n_layers, hidden_dim)\<close>.
  The constructor also builds \<open>MSGDiscriminator(0, 0, 256)\<close>; its head \<open>disc_spec\<close>, a
  \<open>Conv1d(0, 1)\<close>, is given the input \<open>x\<close> without channels and returns a tensor
  without channels, not with 1 channel, and the score of shape \<open>(4, 0)\<close> carries no
  value.
\<close>

theorem MSGDiscriminator_channels_counterexample:
  "map_sum id disc_spec (MSGDiscriminator_init 0 0 256)
     = Inr \<lparr>in_channels = 0, out_channels = 1, kernel_size = 3, stride = 1, padding = 1\<rparr> \<and>
   Conv1d_forward \<lparr>in_channels = 0, out_channels = 1, kernel_size = 3, stride = 1,
                   padding = 1\<rparr> [4, 0, 300] = Inr [4, 0, 300] \<and>
   MSGDiscriminator_run 0 0 256 [4, 0, 300] [4, 256, 300] = Inr ([], [4, 0])"
proof -
  obtain D where D: "MSGDiscriminator_init 0 0 256 = Inr D"
    by (simp add: MSGDiscriminator_init_Inr_iff)
  then have cfg: "D = \<lparr>disc_spec = \<lparr>in_channels = 0, out_channels = 1, kernel_size = 3,
                                     stride = 1, padding = 1\<rparr>,
                        disc_cond = \<lparr>in_channels = 256, out_channels = 1, kernel_size = 3,
                                     stride = 1, padding = 1\<rparr>,
                        discriminator = []\<rparr>"
    by (simp add: MSGDiscriminator_init_Inr_iff)
  have head: "Conv1d_forward \<lparr>in_channels = 0, out_channels = 1, kernel_size = 3, stride = 1,
                   padding = 1\<rparr> [4, 0, 300] = Inr [4, 0, 300]"
    by (simp add: Conv1d_forward_def conv_shape_def)
  have "MSGDiscriminator_forward D [4, 0, 300] [4, 256, 300] = Inr ([], [4, 0])"
    by (simp add: cfg MSGDiscriminator_forward_def Conv1d_forward_def conv_shape_def
          tensor_add_def flatten_1_end_def)
  with D cfg head show ?thesis by (simp add: MSGDiscriminator_run_def)
qed

section \<open>Properties of \<^verbatim>\<open>MultiScaleDiscriminator\<close>\<close>

text \<open>
  Claim C1 says that \<open>MultiScaleDiscriminator.forward(x)\<close> returns a pair of lists of
  length \<open>num_D\<close>, one score per sub-discriminator. The code does not do this: every
  sub-discriminator is an \<open>MSGDiscriminator\<close>, whose \<open>forward\<close> takes \<open>x\<close> and
  \<open>y\<close>, and the loop calls it as \<open>disc(x)\<close>. With the default hyperparameters and an
  input of shape \<open>(4, 80, 300)\<close> the module is constructed and its forward pass raises
  \<open>TypeError\<close> at the first sub-discriminator. By
  \<open>MultiScaleDiscriminator_forward_TypeError\<close> the same happens for every
  \<open>num_D \<ge> 1\<close> and every input.
\<close>

theorem MultiScaleDiscriminator_forward_raises:
  "\<not> isl (MultiScaleDiscriminator_init 3 80 4 2 256) \<and>
   MultiScaleDiscriminator_run 3 80 4 2 256 [4, 80, 300] = Inl TypeError"
proof -
  obtain D where "MSGDiscriminator_init 80 4 256 = Inr D"
    using MSGDiscriminator_init_default by blast
  from MultiScaleDiscriminator_init_ok [OF this, of 3 2]
  obtain M where M: "MultiScaleDiscriminator_init 3 80 4 2 256 = Inr M" by blast
  from MultiScaleDiscriminator_forward_TypeError [OF M] show ?thesis
    by (simp add: MultiScaleDiscriminator_run_def M)
qed


section \<open>The downsampling layer\<close>





section \<open>Properties of \<^verbatim>\<open>MultiMSGDiscriminator\<close>\<close>




text \<open>
  A window of 1 is rejected at once: the padding 1 is more than half of it.
\<close>

lemma MultiMSGDiscriminator_window_1:
  "\<not> isl (MultiMSGDiscriminator_init 1 80 4 1 256) \<and>
   MultiMSGDiscriminator_run 1 80 4 1 256 [4, 80, 300] [4, 256, 300] = Inl RuntimeError"
proof -
  obtain D where D: "MSGDiscriminator_init 80 4 256 = Inr D"
    using MSGDiscriminator_init_default by blast
  from MultiMSGDiscriminator_init_ok [OF D, of 1 1]
  obtain M where M: "MultiMSGDiscriminator_init 1 80 4 1 256 = Inr M" by blast
  then have model: "model M = [(disc 0, D)]"
    and p: "downsample M = \<lparr>pool_kernel_size = 1, pool_stride = 2, pool_padding = 1,
                             count_include_pad = False\<rparr>"
    using D by (auto simp: MultiMSGDiscriminator_init_Inr_iff Multi_models_range)
  have L: "(1::nat) \<le> 300" by simp
  note fwd = MSGDiscriminator_forward_doubling_chain [OF D L, of 4]
  have "MultiMSGDiscriminator_forward M [4, 80, 300] [4, 256, 300] = Inl RuntimeError"
    using fwd
    by (simp add: MultiMSGDiscriminator_forward_def model p MSGDiscriminator_call_def
          AvgPool1d_forward_def pool_shape_def del: upt_Suc)
  with M show ?thesis by (simp add: MultiMSGDiscriminator_run_def)
qed


section \<open>Properties of \<^verbatim>\<open>MelGANDiscriminator\<close>\<close>

text \<open>
  Claim C2 says that \<open>MelGANDiscriminator.forward\<close> completes without a shape mismatch
  for every \<open>ndf \<ge> 1\<close>, each layer receiving the channel count the previous layer
  produced. The code does not do this: the layers \<open>layer_0 .. layer_n_layers\<close> all
  produce \<open>ndf\<close> channels, the constructor then sets \<open>nf = min(ndf * 2, disc_out)\<close>,
  and both \<open>layer_(n_layers + 1)\<close> and \<open>layer_(n_layers + 2)\<close> expect \<open>nf\<close>
  channels. With the default hyperparameters (\<open>ndf = 16\<close>, \<open>disc_out = 512\<close>) and an
  input of shape \<open>(4, 80, 300)\<close> the module is constructed and its forward pass raises
  at \<open>layer_4\<close>, which expects 32 channels and is given 16. By
  \<open>MelGANDiscriminator_forward_mismatch\<close> the forward pass raises for every input
  whenever \<open>input_dim\<close> and \<open>ndf\<close> are positive, \<open>n_layers \<ge> 0\<close> and
  \<open>disc_out \<noteq> ndf\<close>; \<open>MelGANDiscriminator_equal_widths\<close> shows a pass that
  returns, with \<open>disc_out = ndf\<close>.
\<close>

theorem MelGANDiscriminator_forward_raises:
  "\<not> isl (MelGANDiscriminator_init 80 16 3 512) \<and>
   MelGANDiscriminator_run 80 16 3 512 [4, 80, 300] = Inl RuntimeError"
proof -
  obtain D where D: "MelGANDiscriminator_init 80 16 3 512 = Inr D"
    by (simp add: MelGANDiscriminator_init_Inr_iff)
  have "MelGANDiscriminator_forward D [4, 80, 300] = Inl RuntimeError"
    by (rule MelGANDiscriminator_forward_mismatch [OF D]) simp_all
  with D show ?thesis by (simp add: MelGANDiscriminator_run_def)
qed


section \<open>Failures of the forward passes\<close>



end
